theory Spec2Isabelle
  imports Complex_Main "HOL-Library.Word" "HOL-Library.Multiset"
begin

text \<open>
  A model of the bulk-job core of the utility server: the password generator's
  \<open>createPassword\<close>, the chunking scheduler \<open>processDownloadQueue\<close>, the socket helpers
  \<open>emitProgress\<close>, \<open>emitCompletion\<close> and \<open>emitError\<close>, and the document fetcher
  (\<open>processDocument\<close>, \<open>downloadFileWithProgress\<close>, \<open>createZipArchive\<close>,
  \<open>processExcelFile\<close> and its driver \<open>processDocumentsInBackground\<close>). The functions are
  pure: what the file system, the network, the clock and the random source answer is a
  parameter, exceptions are values, and a loop that may run forever returns an option.
  The definitions come first, the properties after them.
\<close>

section \<open>JavaScript values and strings\<close>

text \<open>
  Strings are lists of characters (\<^typ>\<open>string\<close>); one \<^typ>\<open>char\<close> stands for one code
  unit of the source's strings. A thrown value is either an \<open>Error\<close> object, of which only
  the \<open>message\<close> is ever read, or any other value.
\<close>

datatype exn = JsError string | JsThrown

text \<open>\<open>error instanceof Error ? error.message : dflt\<close>\<close>

fun error_message_or :: "exn \<Rightarrow> string \<Rightarrow> string" where
  "error_message_or (JsError m) dflt = m"
| "error_message_or JsThrown dflt = dflt"

text \<open>\<open>s || dflt\<close> on an optional string: \<open>undefined\<close> and the empty string are falsy.\<close>

fun str_or :: "string option \<Rightarrow> string \<Rightarrow> string" where
  "str_or None dflt = dflt"
| "str_or (Some s) dflt = (if s = [] then dflt else s)"

section \<open>Password generator: \<open>createPassword\<close>\<close>

record PasswordConfig =
  pw_length :: int
  includeUppercase :: bool
  includeLowercase :: bool
  includeNumbers :: bool
  includeSymbols :: bool
  excludeSimilar :: bool
  excludeAmbiguous :: bool
  customChars :: "string option"
  pw_count :: int

definition similar_chars :: string where
  "similar_chars = ''il1Lo0O''"

text \<open>The class \<open>[{}[\]()\/\\~,;.<>]\<close>; the backslash is character 92.\<close>

definition ambiguous_chars :: string where
  "ambiguous_chars = ''{}[]()/~,;.<>'' @ [char_of (92 :: nat)]"

text \<open>The character set before the two filters (the five \<open>charset += ...\<close> statements).\<close>

definition selected_charset :: "PasswordConfig \<Rightarrow> string" where
  "selected_charset config =
     (if includeLowercase config then ''abcdefghijklmnopqrstuvwxyz'' else []) @
     (if includeUppercase config then ''ABCDEFGHIJKLMNOPQRSTUVWXYZ'' else []) @
     (if includeNumbers config then ''0123456789'' else []) @
     (if includeSymbols config then ''!@#$%^&*()_+-=[]{}|;:,.<>?'' else []) @
     (case customChars config of None \<Rightarrow> [] | Some cs \<Rightarrow> cs)"

text \<open>The two \<open>charset.replace(/[...]/g, '')\<close> statements.\<close>

definition filtered_charset :: "PasswordConfig \<Rightarrow> string" where
  "filtered_charset config =
     (let charset = selected_charset config;
          charset = (if excludeSimilar config
                     then filter (\<lambda>c. c \<notin> set similar_chars) charset else charset);
          charset = (if excludeAmbiguous config
                     then filter (\<lambda>c. c \<notin> set ambiguous_chars) charset else charset)
      in charset)"

text \<open>
  The loop body for one random byte: \<open>arrayValue % charset.length\<close> is \<open>NaN\<close> on the empty
  character set, \<open>charset[NaN]\<close> is \<open>undefined\<close> and nothing is appended.
\<close>

definition pick_char :: "string \<Rightarrow> 8 word \<Rightarrow> string" where
  "pick_char charset arrayValue =
     (if charset = [] then []
      else [charset ! (unat arrayValue mod length charset)])"

text \<open>
  \<open>new Uint8Array(n)\<close> raises a \<open>RangeError\<close> for a negative length, and
  \<open>crypto.getRandomValues\<close> refuses an array of more than 65536 bytes. The random bytes
  are the environment's: \<open>rnd i\<close> is the byte stored at index \<open>i\<close>.
\<close>

definition createPassword :: "(nat \<Rightarrow> 8 word) \<Rightarrow> PasswordConfig \<Rightarrow> exn + string" where
  "createPassword rnd config =
     (if selected_charset config = []
      then Inl (JsError ''At least one character type must be selected'')
      else if pw_length config < 0 then Inl (JsError ''Invalid typed array length'')
      else if pw_length config > 65536 then Inl (JsError ''Quota exceeded'')
      else Inr (concat (map (\<lambda>i. pick_char (filtered_charset config) (rnd i))
                          [0 ..< nat (pw_length config)])))"

text \<open>Two concrete configurations, used to exercise the properties below.\<close>

definition cfg_only_zero :: PasswordConfig where
  "cfg_only_zero = \<lparr> pw_length = 8, includeUppercase = False, includeLowercase = False,
     includeNumbers = False, includeSymbols = False, excludeSimilar = True,
     excludeAmbiguous = False, customChars = Some ''0'', pw_count = 1 \<rparr>"

definition cfg_digits :: PasswordConfig where
  "cfg_digits = \<lparr> pw_length = 8, includeUppercase = False, includeLowercase = False,
     includeNumbers = True, includeSymbols = False, excludeSimilar = True,
     excludeAmbiguous = False, customChars = None, pw_count = 1 \<rparr>"

text \<open>The same configurations with a negative length and with a length beyond the
  quota of the random source.\<close>

definition cfg_only_zero_negative :: PasswordConfig where
  "cfg_only_zero_negative = cfg_only_zero \<lparr> pw_length := - 1 \<rparr>"

definition cfg_digits_long :: PasswordConfig where
  "cfg_digits_long = cfg_digits \<lparr> pw_length := 70000 \<rparr>"

text \<open>A random source that stores the byte 7 at every index.\<close>

definition rnd_sevens :: "nat \<Rightarrow> 8 word" where
  "rnd_sevens i = 7"

section \<open>Bounded concurrency scheduler: \<open>processDownloadQueue\<close>\<close>

text \<open>
  The queue holds zero-argument asynchronous thunks. A thunk is represented by a label
  \<open>'t\<close>; what it does to the state it closes over happens in one synchronous step when
  its promise settles, and is given by \<open>settle\<close>. The scheduler's run is observed as a
  trace: \<open>Launch t\<close> when \<open>task()\<close> is called, \<open>Settle t\<close> when the promise of \<open>t\<close>
  settles.
\<close>

datatype 't sched_event = Launch 't | Settle 't

text \<open>\<open>Array.prototype.slice(start, end)\<close>: negative indices count from the end.\<close>

definition js_slice :: "'a list \<Rightarrow> int \<Rightarrow> int \<Rightarrow> 'a list" where
  "js_slice xs start end =
     (let len = int (length xs);
          k = (if start < 0 then max (len + start) 0 else min start len);
          final = (if end < 0 then max (len + end) 0 else min end len)
      in take (nat (final - k)) (drop (nat k) xs))"

text \<open>
  The first loop of \<open>processDownloadQueue\<close>:
  \<open>for (let i = 0; i < queue.length; i += maxConcurrent) chunks.push(queue.slice(i, i + maxConcurrent))\<close>.
  The loop need not terminate, so the result is an option: \<open>None\<close> is a loop that never
  exits.
\<close>

partial_function (option) build_chunks ::
  "'t list \<Rightarrow> int \<Rightarrow> int \<Rightarrow> 't list list \<Rightarrow> 't list list option" where
  "build_chunks queue maxConcurrent i chunks =
     (if i < int (length queue)
      then build_chunks queue maxConcurrent (i + maxConcurrent)
             (chunks @ [js_slice queue i (i + maxConcurrent)])
      else Some chunks)"

declare build_chunks.simps [code]

text \<open>
  \<open>await Promise.all(chunk.map(task => task()))\<close>: every thunk of the chunk is called, in
  queue order, before anything is awaited; the promises then settle in the order of the
  thunks' latencies (ties in launch order), which the environment chooses. The next chunk
  starts only when all have settled.
\<close>

definition chunk_events :: "('t \<Rightarrow> nat) \<Rightarrow> 't list \<Rightarrow> 't sched_event list" where
  "chunk_events latency chunk = map Launch chunk @ map Settle (sort_key latency chunk)"

definition run_chunk ::
  "('t \<Rightarrow> nat) \<Rightarrow> ('t \<Rightarrow> 's \<Rightarrow> 's) \<Rightarrow> 't list \<Rightarrow> 't sched_event list \<times> 's
     \<Rightarrow> 't sched_event list \<times> 's" where
  "run_chunk latency settle chunk st =
     (fst st @ chunk_events latency chunk, fold settle (sort_key latency chunk) (snd st))"

definition processDownloadQueue ::
  "('t \<Rightarrow> nat) \<Rightarrow> ('t \<Rightarrow> 's \<Rightarrow> 's) \<Rightarrow> 't list \<Rightarrow> int \<Rightarrow> 's
     \<Rightarrow> ('t sched_event list \<times> 's) option" where
  "processDownloadQueue latency settle queue maxConcurrent s =
     (case build_chunks queue maxConcurrent 0 [] of
        None \<Rightarrow> None
      | Some chunks \<Rightarrow> Some (fold (run_chunk latency settle) chunks ([], s)))"

text \<open>
  The caller passes \<open>config.maxConcurrent || MAX_CONCURRENT_DOWNLOADS\<close>: the number 0 is
  falsy and is replaced by the default.
\<close>

definition MAX_CONCURRENT_DOWNLOADS :: int where
  "MAX_CONCURRENT_DOWNLOADS = 20"

definition effective_maxConcurrent :: "int \<Rightarrow> int" where
  "effective_maxConcurrent maxConcurrent =
     (if maxConcurrent = 0 then MAX_CONCURRENT_DOWNLOADS else maxConcurrent)"

text \<open>The thunks launched and the thunks settled along a trace, in order.\<close>

fun launched :: "'t sched_event list \<Rightarrow> 't list" where
  "launched [] = []"
| "launched (Launch t # es) = t # launched es"
| "launched (Settle t # es) = launched es"

fun settled :: "'t sched_event list \<Rightarrow> 't list" where
  "settled [] = []"
| "settled (Launch t # es) = settled es"
| "settled (Settle t # es) = t # settled es"

text \<open>Consecutive blocks of \<open>k\<close> elements, the last one possibly shorter.\<close>

fun chunk_list :: "nat \<Rightarrow> 'a list \<Rightarrow> 'a list list" where
  "chunk_list k xs = (if xs = [] \<or> k = 0 then [] else take k xs # chunk_list k (drop k xs))"

declare chunk_list.simps [simp del]

text \<open>The scenario of 1000 items, numbered from 0.\<close>

definition queue_1000 :: "nat list" where
  "queue_1000 = [0 ..< 1000]"

section \<open>Values of the uploaded rows\<close>

text \<open>
  A cell of a parsed row is any JSON scalar; a property that is absent reads as
  \<open>undefined\<close>. Numbers are modelled as integers.
\<close>

datatype jsval = JUndefined | JNull | JBool bool | JNum int | JStr string

fun truthy :: "jsval \<Rightarrow> bool" where
  "truthy JUndefined = False"
| "truthy JNull = False"
| "truthy (JBool b) = b"
| "truthy (JNum n) = (n \<noteq> 0)"
| "truthy (JStr s) = (s \<noteq> [])"

text \<open>\<open>a || b\<close>\<close>

definition js_or :: "jsval \<Rightarrow> jsval \<Rightarrow> jsval" where
  "js_or a b = (if truthy a then a else b)"

text \<open>\<open>typeof v === 'string'\<close>\<close>

fun is_string :: "jsval \<Rightarrow> bool" where
  "is_string (JStr s) = True"
| "is_string v = False"

fun show_nat :: "nat \<Rightarrow> string" where
  "show_nat n = (if n < 10 then [char_of (48 + n)]
                 else show_nat (n div 10) @ [char_of (48 + n mod 10)])"

declare show_nat.simps [simp del]

text \<open>The string a value contributes to a template literal.\<close>

fun to_string :: "jsval \<Rightarrow> string" where
  "to_string JUndefined = ''undefined''"
| "to_string JNull = ''null''"
| "to_string (JBool b) = (if b then ''true'' else ''false'')"
| "to_string (JNum n) = (if n < 0 then CHR ''-'' # show_nat (nat (- n)) else show_nat (nat n))"
| "to_string (JStr s) = s"

type_synonym StudentRecord = "string \<Rightarrow> jsval"

record DocumentFetcherConfig =
  maxConcurrent :: int
  timeout :: int
  autoOrganize :: bool
  columnMapping :: "(string \<times> string) list option"

text \<open>\<open>Object.entries(config.columnMapping || {})\<close>\<close>

definition column_entries :: "DocumentFetcherConfig \<Rightarrow> (string \<times> string) list" where
  "column_entries config = (case columnMapping config of None \<Rightarrow> [] | Some m \<Rightarrow> m)"

section \<open>String helpers of the platform\<close>

text \<open>\<open>s.startsWith(p)\<close> and \<open>s.includes(sub)\<close>\<close>

definition starts_with :: "string \<Rightarrow> string \<Rightarrow> bool" where
  "starts_with s p = (take (length p) s = p)"

fun str_includes :: "string \<Rightarrow> string \<Rightarrow> bool" where
  "str_includes [] sub = (sub = [])"
| "str_includes (c # cs) sub = (starts_with (c # cs) sub \<or> str_includes cs sub)"

definition to_lower_char :: "char \<Rightarrow> char" where
  "to_lower_char c =
     (if 65 \<le> (of_char c :: nat) \<and> (of_char c :: nat) \<le> 90
      then char_of ((of_char c :: nat) + 32) else c)"

definition toLowerCase :: "string \<Rightarrow> string" where
  "toLowerCase s = map to_lower_char s"

text \<open>The class \<open>\s\<close> on 8-bit code units: tab, line feed, vertical tab, form feed,
  carriage return, space and the no-break space.\<close>

definition is_space :: "char \<Rightarrow> bool" where
  "is_space c = ((of_char c :: nat) \<in> {9, 10, 11, 12, 13, 32, 160})"

text \<open>\<open>s.replace(/\s+/g, '_')\<close>: every maximal run of white space becomes one underscore.
  The flag tells whether the previous character belonged to a run.\<close>

fun replace_ws_from :: "bool \<Rightarrow> string \<Rightarrow> string" where
  "replace_ws_from in_run [] = []"
| "replace_ws_from in_run (c # cs) =
     (if is_space c
      then (if in_run then replace_ws_from True cs else CHR ''_'' # replace_ws_from True cs)
      else c # replace_ws_from False cs)"

definition replace_ws :: "string \<Rightarrow> string" where
  "replace_ws s = replace_ws_from False s"

section \<open>POSIX path helpers of the platform\<close>

text \<open>The pieces of a path between its separators.\<close>

fun split_slash :: "string \<Rightarrow> string list" where
  "split_slash [] = [[]]"
| "split_slash (c # cs) =
     (if c = CHR ''/'' then [] # split_slash cs
      else (case split_slash cs of [] \<Rightarrow> [[c]] | seg # segs \<Rightarrow> (c # seg) # segs))"

text \<open>
  \<open>normalizeString\<close>: empty and \<open>.\<close> segments are dropped; \<open>..\<close> removes the segment
  before it, or is kept when there is none and the path is relative. The accumulator holds
  the segments kept so far, last one first.
\<close>

fun normalize_segments :: "bool \<Rightarrow> string list \<Rightarrow> string list \<Rightarrow> string list" where
  "normalize_segments allowAboveRoot acc [] = rev acc"
| "normalize_segments allowAboveRoot acc (seg # segs) =
     (if seg = [] \<or> seg = ''.'' then normalize_segments allowAboveRoot acc segs
      else if seg = ''..'' then
        (case acc of
           [] \<Rightarrow> normalize_segments allowAboveRoot (if allowAboveRoot then [''..''] else []) segs
         | prev # below \<Rightarrow>
             if prev = ''..''
             then normalize_segments allowAboveRoot
                    (if allowAboveRoot then ''..'' # acc else acc) segs
             else normalize_segments allowAboveRoot below segs)
      else normalize_segments allowAboveRoot (seg # acc) segs)"

fun join_slash :: "string list \<Rightarrow> string" where
  "join_slash [] = []"
| "join_slash [s] = s"
| "join_slash (s # t # ss) = s @ ''/'' @ join_slash (t # ss)"

definition path_normalize :: "string \<Rightarrow> string" where
  "path_normalize p =
     (if p = [] then ''.''
      else let isAbsolute = (hd p = CHR ''/'');
               trailingSeparator = (last p = CHR ''/'');
               body = join_slash (normalize_segments (\<not> isAbsolute) [] (split_slash p))
           in if body = [] then (if isAbsolute then ''/'' else if trailingSeparator then ''./'' else ''.'')
              else (if isAbsolute then ''/'' else []) @ body @ (if trailingSeparator then ''/'' else []))"

text \<open>\<open>path.join(...)\<close>: the non-empty arguments joined by a separator, then normalised.\<close>

definition path_join :: "string list \<Rightarrow> string" where
  "path_join args =
     (let joined = join_slash (filter (\<lambda>a. a \<noteq> []) args)
      in if joined = [] then ''.'' else path_normalize joined)"

text \<open>\<open>path.basename(p)\<close>: the last non-empty piece, the empty string when there is none.\<close>

definition path_basename :: "string \<Rightarrow> string" where
  "path_basename p =
     (case filter (\<lambda>seg. seg \<noteq> []) (rev (split_slash p)) of [] \<Rightarrow> [] | seg # segs \<Rightarrow> seg)"

text \<open>
  \<open>path.dirname(p)\<close>: scanning from the end down to index 1, the trailing separators and
  the last piece are skipped; the path is cut at the separator found before them.
\<close>

definition path_dirname :: "string \<Rightarrow> string" where
  "path_dirname p =
     (if p = [] then ''.''
      else let hasRoot = (hd p = CHR ''/'');
               scanned = dropWhile (\<lambda>c. c \<noteq> CHR ''/'')
                           (dropWhile (\<lambda>c. c = CHR ''/'') (rev (tl p)));
               end = length scanned
           in if scanned = [] then (if hasRoot then ''/'' else ''.'')
              else if hasRoot \<and> end = 1 then ''//''
              else take end p)"

section \<open>Socket layer: \<open>emitProgress\<close>, \<open>emitCompletion\<close>, \<open>emitError\<close>\<close>

datatype status = Pending | Processing | Success | Failed | Skipped

record DocumentFetcherResult =
  result_id :: string
  regNo :: string
  column :: string
  status :: status
  message :: string
  error :: "string option"
  filePath :: "string option"
  fileName :: "string option"
  fileSize :: "nat option"
  timestamp :: string

text \<open>The \<open>error\<close> property of an error payload, \<open>error.message || error\<close>: the message,
  or the thrown value itself when it has no message.\<close>

datatype error_field = ErrorMessage string | ErrorValue exn

fun message_or_error :: "exn \<Rightarrow> error_field" where
  "message_or_error (JsError m) = (if m \<noteq> [] then ErrorMessage m else ErrorValue (JsError m))"
| "message_or_error JsThrown = ErrorValue JsThrown"

text \<open>The objects passed to the emit functions, one constructor for each shape.\<close>

datatype payload =
    DriverStart (p_jobId: string) (p_totalRecords: nat) (p_config: DocumentFetcherConfig)
      (p_timestamp: string)
  | ServiceStart (p_jobId: string) (p_totalRecords: nat) (p_totalTasks: nat)
      (p_skippedTasks: nat) (p_downloadTasks: nat) (p_timestamp: string)
  | DownloadStart (p_jobId: string) (p_regNo: string) (p_column: string) (p_url: string)
      (p_timestamp: string)
  | DownloadComplete (p_jobId: string) (p_regNo: string) (p_column: string)
      (p_filePath: string) (p_timestamp: string)
  | DownloadError (p_jobId: string) (p_regNo: string) (p_column: string) (p_message: string)
      (p_timestamp: string)
  | ItemProgress (p_jobId: string) (p_current: nat) (p_total: nat) (p_progress: "real option")
      (p_result: DocumentFetcherResult) (p_timestamp: string)
  | ServiceComplete (p_jobId: string) (p_totalProcessed: nat) (p_totalSkipped: nat)
      (p_zipPath: string) (p_results: "DocumentFetcherResult list") (p_timestamp: string)
  | DriverComplete (p_jobId: string) (p_results: "DocumentFetcherResult list")
      (p_timestamp: string)
  | ErrorData (p_jobId: string) (p_error: error_field) (p_timestamp: string)

text \<open>
  An emission is one \<open>emit\<close> call on the server: \<open>io.to(room).emit(event, data)\<close> addresses
  the sockets joined to the room, \<open>io.emit(event, data)\<close> every connected socket.
\<close>

datatype audience = Room string | AllClients

type_synonym emission = "audience \<times> string \<times> payload"

definition emitProgress :: "string \<Rightarrow> string \<Rightarrow> payload \<Rightarrow> emission list" where
  "emitProgress jobId event data = [(Room jobId, event, data), (AllClients, event, data)]"

definition emitCompletion :: "string \<Rightarrow> string \<Rightarrow> payload \<Rightarrow> emission list" where
  "emitCompletion jobId event data = [(Room jobId, event, data), (AllClients, event, data)]"

definition emitError :: "string \<Rightarrow> string \<Rightarrow> string \<Rightarrow> exn \<Rightarrow> emission list" where
  "emitError now jobId event err =
     (let errorData = ErrorData jobId (message_or_error err) now
      in [(Room jobId, event, errorData), (AllClients, event, errorData)])"

text \<open>The server: its connected sockets and the rooms each has joined.\<close>

record io_server =
  sockets :: "nat list"
  rooms :: "nat \<Rightarrow> string list"

fun recipients :: "io_server \<Rightarrow> audience \<Rightarrow> nat list" where
  "recipients io (Room r) = filter (\<lambda>s. r \<in> set (rooms io s)) (sockets io)"
| "recipients io AllClients = sockets io"

text \<open>The messages that reach the sockets: (socket, event, payload).\<close>

definition deliver :: "io_server \<Rightarrow> emission \<Rightarrow> (nat \<times> string \<times> payload) list" where
  "deliver io e = map (\<lambda>s. (s, fst (snd e), snd (snd e))) (recipients io (fst e))"

definition deliver_all :: "io_server \<Rightarrow> emission list \<Rightarrow> (nat \<times> string \<times> payload) list" where
  "deliver_all io es = concat (map (deliver io) es)"

text \<open>The number of emit calls for an event: each call addresses all clients once.\<close>

definition emit_count :: "string \<Rightarrow> emission list \<Rightarrow> nat" where
  "emit_count event es = length (filter (\<lambda>e. fst e = AllClients \<and> fst (snd e) = event) es)"

section \<open>Document fetcher: the environment\<close>

text \<open>
  What the file system, the network and the platform answer. \<open>ensureDir path\<close> is the
  exception \<open>fs.ensureDir\<close> throws, if any; \<open>axios_get url\<close> is the exception of the
  request or the \<open>content-type\<close> header of the response; \<open>write_stream path\<close> is the message
  of the write stream's \<open>error\<close> event, \<open>None\<close> when it finishes; \<open>stat path\<close> is the size
  \<open>fs.stat\<close> reports; \<open>url_hostname url\<close> is the host name \<open>new URL(url)\<close> parses, \<open>None\<close>
  when it throws; \<open>archive_error zipPath\<close> is the failure of writing the archive, if any;
  \<open>latency_of\<close> orders the settlements within a chunk; \<open>now\<close> is the clock's ISO string;
  \<open>to_double x\<close> is the double-precision number nearest to \<open>x\<close>, the result of one
  arithmetic operation whose exact value is \<open>x\<close>.
\<close>

text \<open>
  Writing the archive can fail in two ways: the archiver emits \<open>error\<close>, for which
  \<open>createZipArchive\<close> registers a listener that rejects its promise, or the output write
  stream emits \<open>error\<close>, for which no listener is registered.
\<close>

datatype archive_failure = ArchiverError exn | OutputStreamError exn

record task =
  t_regNo :: string
  t_colName :: string
  t_folderName :: string
  t_link :: string

record env =
  DOWNLOAD_DIR :: string
  ensureDir :: "string \<Rightarrow> exn option"
  axios_get :: "string \<Rightarrow> exn + string option"
  write_stream :: "string \<Rightarrow> string option"
  stat :: "string \<Rightarrow> exn + nat"
  url_hostname :: "string \<Rightarrow> string option"
  archive_error :: "string \<Rightarrow> archive_failure option"
  latency_of :: "task \<Rightarrow> nat"
  now :: string
  to_double :: "real \<Rightarrow> real"

section \<open>Document fetcher: links\<close>

text \<open>The class \<open>[a-zA-Z0-9-_]\<close>.\<close>

definition id_char :: "char \<Rightarrow> bool" where
  "id_char c =
     (let n = (of_char c :: nat)
      in (97 \<le> n \<and> n \<le> 122) \<or> (65 \<le> n \<and> n \<le> 90) \<or> (48 \<le> n \<and> n \<le> 57)
         \<or> c = CHR ''-'' \<or> c = CHR ''_'')"

text \<open>
  \<open>s.match(/lit([a-zA-Z0-9-_]+)/)\<close> for a pattern that is one of several literal prefixes
  followed by the capture group: the leftmost position at which a prefix is followed by at
  least one character of the class; the group is the longest run of such characters.
\<close>

definition capture_here :: "string list \<Rightarrow> string \<Rightarrow> string option" where
  "capture_here lits s =
     (case filter (\<lambda>lit. starts_with s lit \<and> takeWhile id_char (drop (length lit) s) \<noteq> []) lits of
        [] \<Rightarrow> None
      | lit # others \<Rightarrow> Some (takeWhile id_char (drop (length lit) s)))"

fun match_capture :: "string list \<Rightarrow> string \<Rightarrow> string option" where
  "match_capture lits [] = None"
| "match_capture lits (c # cs) =
     (case capture_here lits (c # cs) of
        Some m \<Rightarrow> Some m
      | None \<Rightarrow> match_capture lits cs)"

definition extractFileId :: "string \<Rightarrow> string option" where
  "extractFileId driveUrl =
     (case match_capture [''/d/''] driveUrl of
        Some m \<Rightarrow> Some m
      | None \<Rightarrow>
         (case match_capture [''?id='', ''&id=''] driveUrl of
            Some m \<Rightarrow> Some m
          | None \<Rightarrow> match_capture [''/file/d/''] driveUrl))"

definition isValidGoogleDriveLink :: "env \<Rightarrow> string \<Rightarrow> bool" where
  "isValidGoogleDriveLink e url =
     (if url = [] then False
      else (case url_hostname e url of
              None \<Rightarrow> False
            | Some hostname \<Rightarrow>
                hostname = ''drive.google.com''
                \<and> (str_includes url ''/file/d/'' \<or> str_includes url ''/open?id=''
                    \<or> str_includes url ''/uc?'')))"

definition getFileExtension :: "string \<Rightarrow> string \<Rightarrow> string" where
  "getFileExtension contentType originalUrl =
     (if str_includes contentType ''pdf'' then ''.pdf''
      else if str_includes contentType ''jpeg'' \<or> str_includes contentType ''jpg'' then ''.jpg''
      else if str_includes contentType ''png'' then ''.png''
      else if str_includes contentType ''image'' then ''.jpg''
      else if str_includes (toLowerCase originalUrl) ''.jpg''
              \<or> str_includes (toLowerCase originalUrl) ''.jpeg'' then ''.jpg''
      else if str_includes (toLowerCase originalUrl) ''.png'' then ''.png''
      else ''.pdf'')"

section \<open>Document fetcher: one work item\<close>

record download_outcome =
  dl_success :: bool
  dl_filePath :: "string option"
  dl_fileName :: "string option"
  dl_error :: "string option"

definition downloadFileWithProgress ::
  "env \<Rightarrow> string \<Rightarrow> string \<Rightarrow> string \<Rightarrow> string \<Rightarrow> string \<Rightarrow> string
     \<Rightarrow> emission list \<times> download_outcome" where
  "downloadFileWithProgress e fileId filePath' originalUrl jobId regNo' columnName =
     (let downloadUrl = ''https://drive.google.com/uc?export=download&id='' @ fileId;
          started = emitProgress jobId ''document-fetcher:download-start''
                      (DownloadStart jobId regNo' columnName downloadUrl (now e))
      in case axios_get e downloadUrl of
           Inl err \<Rightarrow>
             (let errorMessage = error_message_or err ''Download failed''
              in (started @ emitProgress jobId ''document-fetcher:download-error''
                              (DownloadError jobId regNo' columnName errorMessage (now e)),
                  \<lparr> dl_success = False, dl_filePath = None, dl_fileName = None,
                    dl_error = Some errorMessage \<rparr>))
         | Inr header \<Rightarrow>
             (let contentType = str_or header [];
                  extension = getFileExtension contentType originalUrl;
                  finalFilePath = filePath' @ extension
              in case write_stream e finalFilePath of
                   None \<Rightarrow>
                     (started @ emitProgress jobId ''document-fetcher:download-complete''
                                 (DownloadComplete jobId regNo' columnName finalFilePath (now e)),
                      \<lparr> dl_success = True, dl_filePath = Some finalFilePath,
                        dl_fileName = Some (path_basename finalFilePath), dl_error = None \<rparr>)
                 | Some msg \<Rightarrow>
                     (started @ emitProgress jobId ''document-fetcher:download-error''
                                 (DownloadError jobId regNo' columnName msg (now e)),
                      \<lparr> dl_success = False, dl_filePath = None, dl_fileName = None,
                        dl_error = Some msg \<rparr>)))"

text \<open>The three shapes of a failed result and the successful one, as \<open>processDocument\<close>
  builds them.\<close>

definition invalid_link_result :: "env \<Rightarrow> string \<Rightarrow> string \<Rightarrow> DocumentFetcherResult" where
  "invalid_link_result e regNo' columnName =
     \<lparr> result_id = regNo' @ ''-'' @ columnName, regNo = regNo', column = columnName,
       status = Failed, message = ''Invalid Google Drive link'', error = None,
       filePath = None, fileName = None, fileSize = None, timestamp = now e \<rparr>"

definition download_failed_result ::
  "env \<Rightarrow> string \<Rightarrow> string \<Rightarrow> download_outcome \<Rightarrow> DocumentFetcherResult" where
  "download_failed_result e regNo' columnName outcome =
     \<lparr> result_id = regNo' @ ''-'' @ columnName, regNo = regNo', column = columnName,
       status = Failed, message = str_or (dl_error outcome) ''Download failed'',
       error = Some (str_or (dl_error outcome) ''Unknown error''),
       filePath = None, fileName = None, fileSize = None, timestamp = now e \<rparr>"

definition caught_result :: "env \<Rightarrow> string \<Rightarrow> string \<Rightarrow> exn \<Rightarrow> DocumentFetcherResult" where
  "caught_result e regNo' columnName err =
     \<lparr> result_id = regNo' @ ''-'' @ columnName, regNo = regNo', column = columnName,
       status = Failed, message = error_message_or err ''Unknown error'',
       error = Some (error_message_or err ''Unknown error''),
       filePath = None, fileName = None, fileSize = None, timestamp = now e \<rparr>"

definition success_result ::
  "env \<Rightarrow> string \<Rightarrow> string \<Rightarrow> string \<Rightarrow> download_outcome \<Rightarrow> nat \<Rightarrow> DocumentFetcherResult" where
  "success_result e regNo' columnName path outcome size' =
     \<lparr> result_id = regNo' @ ''-'' @ columnName, regNo = regNo', column = columnName,
       status = Success, message = ''Downloaded successfully'', error = None,
       filePath = Some path, fileName = Some (str_or (dl_fileName outcome) ''unknown''),
       fileSize = Some size', timestamp = now e \<rparr>"

text \<open>
  \<open>processDocument\<close>: the whole body is inside \<open>try\<close>, so every exception of the
  environment ends in \<open>caught_result\<close>. The function returns the emissions of the download
  together with the result.
\<close>

definition processDocument ::
  "env \<Rightarrow> string \<Rightarrow> string \<Rightarrow> string \<Rightarrow> string \<Rightarrow> string
     \<Rightarrow> emission list \<times> DocumentFetcherResult" where
  "processDocument e regNo' columnName folderName link jobId =
     (case extractFileId link of
        None \<Rightarrow> ([], invalid_link_result e regNo' columnName)
      | Some fileId \<Rightarrow>
         (let folderPath = path_join [DOWNLOAD_DIR e, folderName]
          in case ensureDir e folderPath of
               Some err \<Rightarrow> ([], caught_result e regNo' columnName err)
             | None \<Rightarrow>
                (let fileName' = regNo' @ ''_'' @ replace_ws columnName;
                     filePath' = path_join [folderPath, fileName'];
                     (emitted', outcome) =
                        downloadFileWithProgress e fileId filePath' link jobId regNo' columnName
                 in case (if dl_success outcome then dl_filePath outcome else None) of
                      None \<Rightarrow> (emitted', download_failed_result e regNo' columnName outcome)
                    | Some path \<Rightarrow>
                       (if path = []
                        then (emitted', download_failed_result e regNo' columnName outcome)
                        else (case stat e path of
                                Inl err \<Rightarrow> (emitted', caught_result e regNo' columnName err)
                              | Inr size' \<Rightarrow>
                                  (emitted',
                                   success_result e regNo' columnName path outcome size'))))))"

section \<open>Document fetcher: the archive\<close>

text \<open>An archive entry: the file added and the name it is stored under.\<close>

record archive_entry =
  entry_source :: string
  entry_name :: string

definition archive_entries :: "DocumentFetcherResult list \<Rightarrow> archive_entry list" where
  "archive_entries rs =
     concat (map (\<lambda>r. case (if status r = Success then filePath r else None) of
                         None \<Rightarrow> []
                       | Some path \<Rightarrow>
                           (if path = [] then []
                            else [\<lparr> entry_source = path,
                                    entry_name = path_basename (path_dirname path) @ ''/''
                                                 @ path_basename path \<rparr>])) rs)"

text \<open>
  \<open>createZipArchive\<close>: the promise resolves with the path when the output stream closes
  and is rejected when the archiver emits \<open>error\<close>. An \<open>error\<close> of the output stream
  settles nothing and is thrown where no handler is; the caller receives it as
  \<open>OutputStreamError\<close>.
\<close>

definition createZipArchive ::
  "env \<Rightarrow> string \<Rightarrow> DocumentFetcherResult list
     \<Rightarrow> archive_failure + (string \<times> archive_entry list)" where
  "createZipArchive e jobId rs =
     (let zipPath = path_join [DOWNLOAD_DIR e, ''documents_'' @ jobId @ ''.zip'']
      in case archive_error e zipPath of
           Some failure \<Rightarrow> Inl failure
         | None \<Rightarrow> Inr (zipPath, archive_entries rs))"

section \<open>Document fetcher: \<open>processExcelFile\<close>\<close>

text \<open>\<open>row['Reg No'] || row['regNo'] || row['REG NO']\<close>\<close>

definition reg_no :: "StudentRecord \<Rightarrow> jsval" where
  "reg_no row = js_or (js_or (row ''Reg No'') (row ''regNo'')) (row ''REG NO'')"

text \<open>The string of a cell that \<open>typeof\<close> has found to be a string.\<close>

fun str_of :: "jsval \<Rightarrow> string" where
  "str_of (JStr s) = s"
| "str_of v = []"

text \<open>The first pass: the counters \<open>(totalTasks, skippedTasks)\<close>.\<close>

fun count_columns ::
  "env \<Rightarrow> StudentRecord \<Rightarrow> (string \<times> string) list \<Rightarrow> nat \<times> nat \<Rightarrow> nat \<times> nat" where
  "count_columns e row [] counters = counters"
| "count_columns e row ((colName, folderName) # cols) (totalTasks, skippedTasks) =
     (let link = row colName
      in if truthy link \<and> is_string link \<and> isValidGoogleDriveLink e (str_of link)
         then count_columns e row cols (totalTasks + 1, skippedTasks)
         else count_columns e row cols (totalTasks, skippedTasks + 1))"

fun count_rows ::
  "env \<Rightarrow> DocumentFetcherConfig \<Rightarrow> StudentRecord option list \<Rightarrow> nat \<times> nat \<Rightarrow> nat \<times> nat" where
  "count_rows e config [] counters = counters"
| "count_rows e config (None # rows) counters = count_rows e config rows counters"
| "count_rows e config (Some row # rows) (totalTasks, skippedTasks) =
     (if \<not> truthy (reg_no row)
      then count_rows e config rows (totalTasks, skippedTasks + 1)
      else count_rows e config rows
             (count_columns e row (column_entries config) (totalTasks, skippedTasks)))"

definition skipped_result ::
  "env \<Rightarrow> string \<Rightarrow> string \<Rightarrow> string \<Rightarrow> string \<Rightarrow> DocumentFetcherResult" where
  "skipped_result e ident regNo' columnName msg =
     \<lparr> result_id = ident, regNo = regNo', column = columnName, status = Skipped,
       message = msg, error = None, filePath = None, fileName = None, fileSize = None,
       timestamp = now e \<rparr>"

text \<open>The second pass: the results pushed for skipped cells and the download queue.\<close>

fun queue_columns ::
  "env \<Rightarrow> string \<Rightarrow> StudentRecord \<Rightarrow> (string \<times> string) list
     \<Rightarrow> DocumentFetcherResult list \<times> task list \<Rightarrow> DocumentFetcherResult list \<times> task list" where
  "queue_columns e regNo' row [] acc = acc"
| "queue_columns e regNo' row ((colName, folderName) # cols) (results', downloadQueue) =
     (let link = row colName
      in if \<not> truthy link \<or> \<not> is_string link
         then queue_columns e regNo' row cols
                (results' @ [skipped_result e (regNo' @ ''-'' @ colName) regNo' colName
                               ''No link provided''], downloadQueue)
         else if \<not> isValidGoogleDriveLink e (str_of link)
         then queue_columns e regNo' row cols
                (results' @ [skipped_result e (regNo' @ ''-'' @ colName) regNo' colName
                               ''Invalid Google Drive link''], downloadQueue)
         else queue_columns e regNo' row cols
                (results', downloadQueue @ [\<lparr> t_regNo = regNo', t_colName = colName,
                                             t_folderName = folderName,
                                             t_link = str_of link \<rparr>]))"

fun queue_rows ::
  "env \<Rightarrow> DocumentFetcherConfig \<Rightarrow> nat \<Rightarrow> StudentRecord option list
     \<Rightarrow> DocumentFetcherResult list \<times> task list \<Rightarrow> DocumentFetcherResult list \<times> task list" where
  "queue_rows e config i [] acc = acc"
| "queue_rows e config i (None # rows) acc = queue_rows e config (i + 1) rows acc"
| "queue_rows e config i (Some row # rows) (results', downloadQueue) =
     (if \<not> truthy (reg_no row)
      then queue_rows e config (i + 1) rows
             (results' @ [skipped_result e (''row-'' @ show_nat (i + 1))
                            (''Row '' @ show_nat (i + 1)) ''N/A''
                            ''No registration number found''], downloadQueue)
      else queue_rows e config (i + 1) rows
             (queue_columns e (to_string (reg_no row)) row (column_entries config)
                (results', downloadQueue)))"

text \<open>\<open>(completedTasks / totalTasks) * 100\<close> in double-precision arithmetic: the quotient
  is rounded, and so is the product; not a finite number when the total is 0.\<close>

definition percentage :: "env \<Rightarrow> nat \<Rightarrow> nat \<Rightarrow> real option" where
  "percentage e completed totalTasks =
     (if totalTasks = 0 then None
      else Some (to_double e (to_double e (real completed / real totalTasks) * 100)))"

text \<open>The variables the queued thunks close over.\<close>

record job_state =
  results :: "DocumentFetcherResult list"
  completedTasks :: nat
  emitted :: "emission list"

text \<open>
  The continuation of a queued thunk once \<open>processDocument\<close> has resolved: push the
  result, count it, emit the progress event. The emissions of the download itself are
  recorded with it.
\<close>

definition settle_task :: "env \<Rightarrow> string \<Rightarrow> nat \<Rightarrow> task \<Rightarrow> job_state \<Rightarrow> job_state" where
  "settle_task e jobId totalTasks t s =
     (let (emitted', result) =
            processDocument e (t_regNo t) (t_colName t) (t_folderName t) (t_link t) jobId;
          completed = completedTasks s + 1
      in \<lparr> results = results s @ [result],
           completedTasks = completed,
           emitted = emitted s @ emitted'
                     @ emitProgress jobId ''document-fetcher:progress''
                         (ItemProgress jobId completed totalTasks
                            (percentage e completed totalTasks) result (now e)) \<rparr>)"

text \<open>What a run of \<open>processExcelFile\<close> leaves behind: the emissions in order, the
  scheduler's trace, the archive written, and the value returned or the exception that
  ended the run. \<open>uncaught\<close> is that exception when no handler caught it: the process
  exits on it, and nothing more is emitted.\<close>

record run_outcome =
  emissions :: "emission list"
  sched_trace :: "task sched_event list"
  archive :: "(string \<times> archive_entry list) option"
  returned :: "exn + DocumentFetcherResult list"
  uncaught :: "exn option"

text \<open>
  \<open>processExcelFile\<close>. \<open>fs.ensureDir(DOWNLOAD_DIR)\<close> runs before the \<open>try\<close> block and
  before the start event; \<open>cleanupOldFiles\<close> catches its own exceptions and only removes
  old files, so it does not appear. \<open>None\<close> is a run that never finishes. When the
  output stream of the archive fails, the exception is thrown outside the promise: neither
  the \<open>catch\<close> block here nor the driver's sees it.
\<close>

definition processExcelFile ::
  "env \<Rightarrow> StudentRecord option list \<Rightarrow> DocumentFetcherConfig \<Rightarrow> string \<Rightarrow> run_outcome option" where
  "processExcelFile e data config jobId =
     (case ensureDir e (DOWNLOAD_DIR e) of
        Some err \<Rightarrow> Some \<lparr> emissions = [], sched_trace = [], archive = None,
                          returned = Inl err, uncaught = None \<rparr>
      | None \<Rightarrow>
         (let (totalTasks, skippedTasks) = count_rows e config data (0, 0);
              started = emitProgress jobId ''document-fetcher:start''
                          (ServiceStart jobId (length data) totalTasks skippedTasks totalTasks
                             (now e));
              (skipped, downloadQueue) = queue_rows e config 0 data ([], [])
          in case processDownloadQueue (latency_of e) (settle_task e jobId totalTasks)
                    downloadQueue (effective_maxConcurrent (maxConcurrent config))
                    \<lparr> results = skipped, completedTasks = 0, emitted = started \<rparr> of
               None \<Rightarrow> None
             | Some (tr, s) \<Rightarrow>
                (case createZipArchive e jobId (results s) of
                   Inl (ArchiverError err) \<Rightarrow>
                     Some \<lparr> emissions = emitted s
                                        @ emitError (now e) jobId ''document-fetcher:error'' err,
                            sched_trace = tr, archive = None, returned = Inl err,
                            uncaught = None \<rparr>
                 | Inl (OutputStreamError err) \<Rightarrow>
                     Some \<lparr> emissions = emitted s, sched_trace = tr, archive = None,
                            returned = Inl err, uncaught = Some err \<rparr>
                 | Inr (zipPath, entries) \<Rightarrow>
                     Some \<lparr> emissions = emitted s
                                        @ emitCompletion jobId ''document-fetcher:complete''
                                            (ServiceComplete jobId (completedTasks s)
                                               skippedTasks zipPath (results s) (now e)),
                            sched_trace = tr, archive = Some (zipPath, entries),
                            returned = Inr (results s), uncaught = None \<rparr>)))"

text \<open>\<open>processDocumentsInBackground\<close>, the driver in the route: the emissions of the
  whole job. After an uncaught exception the driver does not resume.\<close>

definition processDocumentsInBackground ::
  "env \<Rightarrow> StudentRecord option list \<Rightarrow> DocumentFetcherConfig \<Rightarrow> string \<Rightarrow> emission list option" where
  "processDocumentsInBackground e data config jobId =
     (let started = emitProgress jobId ''document-fetcher:start''
                      (DriverStart jobId (length data) config (now e))
      in case processExcelFile e data config jobId of
           None \<Rightarrow> None
         | Some out \<Rightarrow>
            (case uncaught out of
               Some err \<Rightarrow> Some (started @ emissions out)
             | None \<Rightarrow>
                (case returned out of
                   Inr result \<Rightarrow>
                     Some (started @ emissions out
                           @ emitCompletion jobId ''document-fetcher:complete''
                               (DriverComplete jobId result (now e)))
                 | Inl err \<Rightarrow>
                     Some (started @ emissions out
                           @ emitError (now e) jobId ''document-fetcher:error'' err))))"

text \<open>The result a queued task settles with.\<close>

definition task_result :: "env \<Rightarrow> string \<Rightarrow> task \<Rightarrow> DocumentFetcherResult" where
  "task_result e jobId t =
     snd (processDocument e (t_regNo t) (t_colName t) (t_folderName t) (t_link t) jobId)"

text \<open>How many results of a list carry a given status.\<close>

definition count_status :: "status \<Rightarrow> DocumentFetcherResult list \<Rightarrow> nat" where
  "count_status st rs = length (filter (\<lambda>r. status r = st) rs)"

text \<open>The emissions of a queued task's download.\<close>

definition task_emissions :: "env \<Rightarrow> string \<Rightarrow> task \<Rightarrow> emission list" where
  "task_emissions e jobId t =
     fst (processDocument e (t_regNo t) (t_colName t) (t_folderName t) (t_link t) jobId)"

text \<open>Names for the parts of a run of \<open>processExcelFile\<close>: the two products of the second
  pass, the state in which the queue starts, and the steps after the queue.\<close>

definition download_queue :: "env \<Rightarrow> DocumentFetcherConfig \<Rightarrow> StudentRecord option list \<Rightarrow> task list" where
  "download_queue e config data = snd (queue_rows e config 0 data ([], []))"

definition skipped_results ::
  "env \<Rightarrow> DocumentFetcherConfig \<Rightarrow> StudentRecord option list \<Rightarrow> DocumentFetcherResult list" where
  "skipped_results e config data = fst (queue_rows e config 0 data ([], []))"

definition initial_state ::
  "env \<Rightarrow> StudentRecord option list \<Rightarrow> DocumentFetcherConfig \<Rightarrow> string \<Rightarrow> job_state" where
  "initial_state e data config jobId =
     \<lparr> results = skipped_results e config data, completedTasks = 0,
       emitted = emitProgress jobId ''document-fetcher:start''
                   (ServiceStart jobId (length data) (length (download_queue e config data))
                      (length (skipped_results e config data))
                      (length (download_queue e config data)) (now e)) \<rparr>"

definition finish_run ::
  "env \<Rightarrow> StudentRecord option list \<Rightarrow> DocumentFetcherConfig \<Rightarrow> string
     \<Rightarrow> task sched_event list \<Rightarrow> job_state \<Rightarrow> run_outcome" where
  "finish_run e data config jobId tr s =
     (case createZipArchive e jobId (results s) of
        Inl (ArchiverError err) \<Rightarrow>
          \<lparr> emissions = emitted s @ emitError (now e) jobId ''document-fetcher:error'' err,
            sched_trace = tr, archive = None, returned = Inl err, uncaught = None \<rparr>
      | Inl (OutputStreamError err) \<Rightarrow>
          \<lparr> emissions = emitted s, sched_trace = tr, archive = None, returned = Inl err,
            uncaught = Some err \<rparr>
      | Inr (zipPath, entries) \<Rightarrow>
          \<lparr> emissions = emitted s
                         @ emitCompletion jobId ''document-fetcher:complete''
                             (ServiceComplete jobId (completedTasks s)
                                (length (skipped_results e config data)) zipPath (results s)
                                (now e)),
            sched_trace = tr, archive = Some (zipPath, entries), returned = Inr (results s),
            uncaught = None \<rparr>)"

section \<open>Concrete environments and inputs\<close>

text \<open>
  An environment in which every operation succeeds: the download directory is
  \<open>downloads\<close>, every response is a PDF, every file is 1024 bytes long, and the URL parser
  reports the host of the links that start with \<open>https://drive.google.com/\<close>.
\<close>

text \<open>
  A rounding to the grid of step 1/1048576. In the concrete environments it stands for the
  rounding to the nearest double: like it, it is monotone and leaves 0, 1 and 100 as they
  are, and it does change a quotient such as 1/3.
\<close>

definition round_to_grid :: "real \<Rightarrow> real" where
  "round_to_grid x = real_of_int (round (x * 1048576)) / 1048576"

definition env_ok :: env where
  "env_ok = \<lparr> DOWNLOAD_DIR = ''downloads'',
     ensureDir = (\<lambda>p. None),
     axios_get = (\<lambda>u. Inr (Some ''application/pdf'')),
     write_stream = (\<lambda>p. None),
     stat = (\<lambda>p. Inr 1024),
     url_hostname = (\<lambda>u. if starts_with u ''https://drive.google.com/''
                           then Some ''drive.google.com'' else None),
     archive_error = (\<lambda>p. None),
     latency_of = (\<lambda>t. 0),
     now = ''2024-01-01T00:00:00.000Z'',
     to_double = round_to_grid \<rparr>"




definition env_slow_first :: env where
  "env_slow_first = env_ok \<lparr> latency_of := (\<lambda>t. if t_regNo t = ''R1'' then 5 else 1) \<rparr>"

definition env_net_down :: env where
  "env_net_down = env_ok \<lparr> axios_get := (\<lambda>u. Inl (JsError ''Network Error'')) \<rparr>"

definition cfg_photo :: DocumentFetcherConfig where
  "cfg_photo = \<lparr> maxConcurrent = 2, timeout = 30, autoOrganize = True,
                 columnMapping = Some [(''Photo'', ''photos'')] \<rparr>"

definition cfg_negative :: DocumentFetcherConfig where
  "cfg_negative = \<lparr> maxConcurrent = - 5, timeout = 30, autoOrganize = True,
                    columnMapping = Some [(''Photo'', ''photos'')] \<rparr>"

text \<open>Two column names that differ only in white space, stored in the same folder.\<close>

definition cfg_two_photos :: DocumentFetcherConfig where
  "cfg_two_photos = \<lparr> maxConcurrent = 2, timeout = 30, autoOrganize = True,
                      columnMapping = Some [(''Photo A'', ''docs''), (''Photo_A'', ''docs'')] \<rparr>"

text \<open>A row with a registration number and no link, a row with one link, and a row with
  a link in each of the two columns.\<close>

definition row_no_link :: StudentRecord where
  "row_no_link = (\<lambda>key. if key = ''Reg No'' then JStr ''R1'' else JUndefined)"

definition row_one_link :: StudentRecord where
  "row_one_link =
     (\<lambda>key. if key = ''Reg No'' then JStr ''R1''
            else if key = ''Photo'' then JStr ''https://drive.google.com/file/d/abc123/view''
            else JUndefined)"

definition row_two_links :: StudentRecord where
  "row_two_links =
     (\<lambda>key. if key = ''Reg No'' then JStr ''R1''
            else if key = ''Photo A'' then JStr ''https://drive.google.com/file/d/abc123/view''
            else if key = ''Photo_A'' then JStr ''https://drive.google.com/file/d/xyz789/view''
            else JUndefined)"

text \<open>A link that \<open>isValidGoogleDriveLink\<close> accepts and that holds no file id.\<close>

definition link_without_id :: string where
  "link_without_id = ''https://drive.google.com/uc?export=download''"

definition row_link_without_id :: StudentRecord where
  "row_link_without_id =
     (\<lambda>key. if key = ''Reg No'' then JStr ''R1''
            else if key = ''Photo'' then JStr link_without_id
            else JUndefined)"

text \<open>The results of the runs on these inputs.\<close>

definition result_invalid_link :: DocumentFetcherResult where
  "result_invalid_link =
     \<lparr> result_id = ''R1-Photo'', regNo = ''R1'', column = ''Photo'', status = Failed,
       message = ''Invalid Google Drive link'', error = None, filePath = None,
       fileName = None, fileSize = None, timestamp = ''2024-01-01T00:00:00.000Z'' \<rparr>"

definition result_network_error :: DocumentFetcherResult where
  "result_network_error =
     \<lparr> result_id = ''R1-Photo'', regNo = ''R1'', column = ''Photo'', status = Failed,
       message = ''Network Error'', error = Some ''Network Error'', filePath = None,
       fileName = None, fileSize = None, timestamp = ''2024-01-01T00:00:00.000Z'' \<rparr>"

definition result_no_link :: DocumentFetcherResult where
  "result_no_link =
     \<lparr> result_id = ''R1-Photo'', regNo = ''R1'', column = ''Photo'', status = Skipped,
       message = ''No link provided'', error = None, filePath = None,
       fileName = None, fileSize = None, timestamp = ''2024-01-01T00:00:00.000Z'' \<rparr>"

definition result_one_link :: DocumentFetcherResult where
  "result_one_link =
     \<lparr> result_id = ''R1-Photo'', regNo = ''R1'', column = ''Photo'', status = Success,
       message = ''Downloaded successfully'', error = None,
       filePath = Some ''downloads/photos/R1_Photo.pdf'', fileName = Some ''R1_Photo.pdf'',
       fileSize = Some 1024, timestamp = ''2024-01-01T00:00:00.000Z'' \<rparr>"

definition result_photo_space :: DocumentFetcherResult where
  "result_photo_space =
     \<lparr> result_id = ''R1-Photo A'', regNo = ''R1'', column = ''Photo A'', status = Success,
       message = ''Downloaded successfully'', error = None,
       filePath = Some ''downloads/docs/R1_Photo_A.pdf'', fileName = Some ''R1_Photo_A.pdf'',
       fileSize = Some 1024, timestamp = ''2024-01-01T00:00:00.000Z'' \<rparr>"

definition result_photo_underscore :: DocumentFetcherResult where
  "result_photo_underscore =
     \<lparr> result_id = ''R1-Photo_A'', regNo = ''R1'', column = ''Photo_A'', status = Success,
       message = ''Downloaded successfully'', error = None,
       filePath = Some ''downloads/docs/R1_Photo_A.pdf'', fileName = Some ''R1_Photo_A.pdf'',
       fileSize = Some 1024, timestamp = ''2024-01-01T00:00:00.000Z'' \<rparr>"

definition outcome_one_link :: run_outcome where
  "outcome_one_link =
     \<lparr> emissions =
              emitProgress ''job1'' ''document-fetcher:start''
                (ServiceStart ''job1'' 1 1 0 1 ''2024-01-01T00:00:00.000Z'')
              @ emitProgress ''job1'' ''document-fetcher:download-start''
                  (DownloadStart ''job1'' ''R1'' ''Photo''
                     ''https://drive.google.com/uc?export=download&id=abc123''
                     ''2024-01-01T00:00:00.000Z'')
              @ emitProgress ''job1'' ''document-fetcher:download-complete''
                  (DownloadComplete ''job1'' ''R1'' ''Photo'' ''downloads/photos/R1_Photo.pdf''
                     ''2024-01-01T00:00:00.000Z'')
              @ emitProgress ''job1'' ''document-fetcher:progress''
                  (ItemProgress ''job1'' 1 1 (percentage env_ok 1 1) result_one_link
                     ''2024-01-01T00:00:00.000Z'')
              @ emitCompletion ''job1'' ''document-fetcher:complete''
                  (ServiceComplete ''job1'' 1 0 ''downloads/documents_job1.zip''
                     [result_one_link] ''2024-01-01T00:00:00.000Z''),
            sched_trace = [Launch \<lparr> t_regNo = ''R1'', t_colName = ''Photo'',
                                    t_folderName = ''photos'',
                                    t_link = ''https://drive.google.com/file/d/abc123/view'' \<rparr>,
                           Settle \<lparr> t_regNo = ''R1'', t_colName = ''Photo'',
                                    t_folderName = ''photos'',
                                    t_link = ''https://drive.google.com/file/d/abc123/view'' \<rparr>],
            archive = Some (''downloads/documents_job1.zip'',
                        [\<lparr> entry_source = ''downloads/photos/R1_Photo.pdf'',
                            entry_name = ''photos/R1_Photo.pdf'' \<rparr>]),
            returned = Inr [result_one_link], uncaught = None \<rparr>"

text \<open>A second student, the two rows together, the two queued tasks and the result of
  the second.\<close>

definition row_second :: StudentRecord where
  "row_second =
     (\<lambda>key. if key = ''Reg No'' then JStr ''R2''
            else if key = ''Photo'' then JStr ''https://drive.google.com/file/d/def456/view''
            else JUndefined)"

definition rows_two_students :: "StudentRecord option list" where
  "rows_two_students = [Some row_one_link, Some row_second]"

definition task_first :: task where
  "task_first = \<lparr> t_regNo = ''R1'', t_colName = ''Photo'', t_folderName = ''photos'',
                   t_link = ''https://drive.google.com/file/d/abc123/view'' \<rparr>"

definition task_second :: task where
  "task_second = \<lparr> t_regNo = ''R2'', t_colName = ''Photo'', t_folderName = ''photos'',
                    t_link = ''https://drive.google.com/file/d/def456/view'' \<rparr>"

definition result_second :: DocumentFetcherResult where
  "result_second =
     \<lparr> result_id = ''R2-Photo'', regNo = ''R2'', column = ''Photo'', status = Success,
       message = ''Downloaded successfully'', error = None,
       filePath = Some ''downloads/photos/R2_Photo.pdf'', fileName = Some ''R2_Photo.pdf'',
       fileSize = Some 1024, timestamp = ''2024-01-01T00:00:00.000Z'' \<rparr>"

section \<open>Observing the progress events\<close>

text \<open>The payloads of the emissions of one event to one audience, in order.\<close>

definition event_payloads :: "audience \<Rightarrow> string \<Rightarrow> emission list \<Rightarrow> payload list" where
  "event_payloads aud ev es =
     map (\<lambda>x. snd (snd x)) (filter (\<lambda>x. fst x = aud \<and> fst (snd x) = ev) es)"

text \<open>The progress payloads of a sequence of settlements that starts when \<open>c\<close> tasks
  have completed.\<close>

fun progress_sequence :: "env \<Rightarrow> string \<Rightarrow> nat \<Rightarrow> nat \<Rightarrow> task list \<Rightarrow> payload list" where
  "progress_sequence e jobId n c [] = []"
| "progress_sequence e jobId n c (t # ts) =
     ItemProgress jobId (Suc c) n (percentage e (Suc c) n) (task_result e jobId t) (now e)
     # progress_sequence e jobId n (Suc c) ts"

section \<open>Properties of the scheduler\<close>

lemma chunk_list_Nil [simp]: "chunk_list k [] = []"
  by (subst chunk_list.simps) simp

lemma js_slice_window:
  "0 < k \<Longrightarrow> js_slice q (int i) (int i + int k) = take k (drop i q)"
  by (auto simp: js_slice_def Let_def min_def nat_diff_distrib' nat_add_distrib)

lemma build_chunks_pos:
  assumes "0 < k"
  shows "build_chunks q (int k) (int i) acc = Some (acc @ chunk_list k (drop i q))"
proof (induction "length q - i" arbitrary: i acc rule: less_induct)
  case less
  show ?case
  proof (cases "i < length q")
    case True
    have "length q - (i + k) < length q - i" using True assms by arith
    from less [OF this]
    have ih: "build_chunks q (int k) (int (i + k)) (acc @ [take k (drop i q)])
              = Some ((acc @ [take k (drop i q)]) @ chunk_list k (drop (i + k) q))" .
    have "build_chunks q (int k) (int i) acc
          = build_chunks q (int k) (int i + int k) (acc @ [js_slice q (int i) (int i + int k)])"
      using True by (subst build_chunks.simps) simp
    also have "\<dots> = Some ((acc @ [take k (drop i q)]) @ chunk_list k (drop (i + k) q))"
      using ih by (simp add: js_slice_window [OF assms])
    also have "(acc @ [take k (drop i q)]) @ chunk_list k (drop (i + k) q)
               = acc @ chunk_list k (drop i q)"
      using True assms by (subst (2) chunk_list.simps) (simp add: add.commute)
    finally show ?thesis .
  next
    case False
    then show ?thesis by (subst build_chunks.simps) simp
  qed
qed

lemma build_chunks_diverges:
  assumes "build_chunks q k i acc = Some r"
  shows "\<not> (k \<le> 0 \<and> i < int (length q))"
proof (rule build_chunks.raw_induct
        [where P = "\<lambda>q k i acc r. \<not> (k \<le> 0 \<and> i < int (length q))", OF _ assms],
       goal_cases)
  case (1 f queue mc j chunks y)
  show ?case
  proof
    assume neg: "mc \<le> 0 \<and> j < int (length queue)"
    with 1(2) have "f queue mc (j + mc) (chunks @ [js_slice queue j (j + mc)]) = Some y"
      by simp
    from 1(1) [OF this] neg show False by arith
  qed
qed

lemma build_chunks_None:
  "k \<le> 0 \<Longrightarrow> i < int (length q) \<Longrightarrow> build_chunks q k i acc = None"
  using build_chunks_diverges [of q k i acc] by (cases "build_chunks q k i acc") auto

lemma concat_chunk_list: "0 < k \<Longrightarrow> concat (chunk_list k xs) = xs"
  by (induction k xs rule: chunk_list.induct) (subst chunk_list.simps, simp)

lemma length_chunk_list: "0 < k \<Longrightarrow> length (chunk_list k xs) = (length xs + k - 1) div k"
proof (induction k xs rule: chunk_list.induct)
  case (1 k xs)
  show ?case
  proof (cases "xs = []")
    case True
    then show ?thesis using 1(2) by (subst chunk_list.simps) simp
  next
    case False
    then have len: "0 < length xs" by simp
    have ih: "length (chunk_list k (drop k xs)) = (length (drop k xs) + k - 1) div k"
      using 1 False by simp
    have "length (chunk_list k xs) = Suc ((length xs - k + k - 1) div k)"
      using False 1(2) ih by (subst chunk_list.simps) simp
    also have "\<dots> = (length xs + k - 1) div k"
    proof (cases "k \<le> length xs")
      case True
      then have "length xs + k - 1 = (length xs - k + k - 1) + k" using len by arith
      then have "(length xs + k - 1) div k = (length xs - k + k - 1) div k + 1"
        using 1(2) by (simp only: div_add_self2) 
      moreover have "Suc ((length xs - k + k - 1) div k) = (length xs - k + k - 1) div k + 1"
        by simp
      ultimately show ?thesis by simp
    next
      case False
      then have "length xs - k + k - 1 = k - 1" by simp
      moreover have "length xs + k - 1 = (length xs - 1) + k" using len by arith
      then have "(length xs + k - 1) div k = (length xs - 1) div k + 1"
        using 1(2) by (simp only: div_add_self2)
      then have "(length xs + k - 1) div k = 1" using False by simp
      ultimately show ?thesis using 1(2) by simp
    qed
    finally show ?thesis .
  qed
qed

lemma nth_chunk_list:
  "0 < k \<Longrightarrow> j < length (chunk_list k xs) \<Longrightarrow> chunk_list k xs ! j = take k (drop (j * k) xs)"
proof (induction k xs arbitrary: j rule: chunk_list.induct)
  case (1 k xs)
  from 1(3) have ne: "xs \<noteq> []" by (subst (asm) chunk_list.simps) (auto split: if_splits)
  have unfold: "chunk_list k xs = take k xs # chunk_list k (drop k xs)"
    using ne 1(2) by (subst chunk_list.simps) simp
  show ?case
  proof (cases j)
    case 0
    then show ?thesis using unfold by simp
  next
    case (Suc j')
    then have "j' < length (chunk_list k (drop k xs))" using 1(3) unfold by simp
    from 1(1) [OF _ 1(2) this] ne 1(2)
    have "chunk_list k (drop k xs) ! j' = take k (drop (j' * k) (drop k xs))" by simp
    then show ?thesis using Suc unfold by (simp add: add.commute)
  qed
qed

lemma chunk_list_lengths:
  "0 < k \<Longrightarrow> c \<in> set (chunk_list k xs) \<Longrightarrow> 0 < length c \<and> length c \<le> k"
proof (induction k xs rule: chunk_list.induct)
  case (1 k xs)
  from 1(3) have ne: "xs \<noteq> []" by (subst (asm) chunk_list.simps) (auto split: if_splits)
  have unfold: "chunk_list k xs = take k xs # chunk_list k (drop k xs)"
    using ne 1(2) by (subst chunk_list.simps) simp
  from 1(3) unfold have "c = take k xs \<or> c \<in> set (chunk_list k (drop k xs))" by simp
  then show ?case
  proof
    assume "c = take k xs"
    then show ?thesis using ne 1(2) by simp
  next
    assume "c \<in> set (chunk_list k (drop k xs))"
    from 1(1) [OF _ 1(2) this] ne 1(2) show ?thesis by simp
  qed
qed

lemma chunk_list_full:
  assumes "0 < k" and "Suc j < length (chunk_list k xs)"
  shows "length (chunk_list k xs ! j) = k"
proof -
  have "Suc j < (length xs + k - 1) div k"
    using assms by (simp add: length_chunk_list)
  then have "Suc (Suc j) \<le> (length xs + k - 1) div k" by simp
  then have "Suc (Suc j) * k \<le> length xs + k - 1"
    using assms(1) by (simp add: less_eq_div_iff_mult_less_eq)
  then have "(j + 1) * k \<le> length xs" using assms(1) by (simp add: algebra_simps)
  then have "j * k + k \<le> length xs" by (simp add: algebra_simps)
  moreover have "chunk_list k xs ! j = take k (drop (j * k) xs)"
    using assms by (intro nth_chunk_list) simp_all
  ultimately show ?thesis by simp
qed


lemma fold_run_chunk:
  "fold (run_chunk latency settle) chunks st =
     (fst st @ concat (map (chunk_events latency) chunks),
      fold settle (concat (map (sort_key latency) chunks)) (snd st))"
  by (induction chunks arbitrary: st) (simp_all add: run_chunk_def)

lemma launched_append [simp]: "launched (xs @ ys) = launched xs @ launched ys"
  by (induction xs rule: launched.induct) simp_all

lemma settled_append [simp]: "settled (xs @ ys) = settled xs @ settled ys"
  by (induction xs rule: settled.induct) simp_all

lemma launched_map [simp]: "launched (map Launch c) = c" "launched (map Settle c) = []"
  by (induction c) simp_all

lemma settled_map [simp]: "settled (map Launch c) = []" "settled (map Settle c) = c"
  by (induction c) simp_all

lemma launched_chunks:
  "launched (concat (map (chunk_events latency) chunks)) = concat chunks"
  by (induction chunks) (simp_all add: chunk_events_def)

lemma settled_chunks:
  "mset (settled (concat (map (chunk_events latency) chunks))) = mset (concat chunks)"
  by (induction chunks) (simp_all add: chunk_events_def)

lemma ceiling_div_chunks:
  assumes "0 < k"
  shows "\<lceil>real n / real k\<rceil> = int ((n + k - 1) div k)"
proof -
  define m where "m = (n + k - 1) div k"
  have "m * k \<le> n + k - 1" by (simp add: m_def)
  then have lo: "m * k < n + k" using assms by arith
  have "n + k - 1 < k + m * k"
    using assms unfolding m_def by (rule dividend_less_div_times)
  then have hi: "n \<le> m * k" using assms by arith
  have rk: "0 < real k" using assms by simp
  have "real (m * k) < real (n + k)" using lo by (simp only: of_nat_less_iff)
  then have "(real m - 1) * real k < real n" by (simp add: algebra_simps)
  then have a: "real_of_int (int m) - 1 < real n / real k"
    using rk by (simp add: pos_less_divide_eq)
  have "real n \<le> real (m * k)" using hi by (simp only: of_nat_le_iff)
  then have b: "real n / real k \<le> real_of_int (int m)"
    using rk by (simp add: pos_divide_le_eq)
  from a b have "\<lceil>real n / real k\<rceil> = int m" by (rule ceiling_unique)
  then show ?thesis by (simp add: m_def)
qed


lemma build_chunks_from_start:
  assumes "0 < k"
  shows "build_chunks queue k 0 [] = Some (chunk_list (nat k) queue)"
  using build_chunks_pos [of "nat k" queue 0 "[]"] assms by simp

lemma chunk_events_settles: "t \<in> set c \<Longrightarrow> Settle t \<in> set (chunk_events latency c)"
  by (simp add: chunk_events_def)

text \<open>
  Claim C2. For a queue of \<open>N\<close> thunks and a positive integer \<open>maxConcurrent = k\<close>, the
  scheduler terminates and builds exactly \<open>\<lceil>N / k\<rceil>\<close> chunks: chunk \<open>j\<close> is the slice
  \<open>[j * k, j * k + k)\<close> of the queue, the chunks concatenated are the queue, every chunk
  but the last has exactly \<open>k\<close> thunks and none is empty or longer than \<open>k\<close>. The trace is
  strictly sequential: for every chunk \<open>j\<close> it consists of the complete runs of the chunks
  before \<open>j\<close>, in which every thunk of an earlier chunk has settled, then the launches
  of all thunks of chunk \<open>j\<close> together, then their settlements, then the runs of the later
  chunks. A non-empty queue with \<open>k \<ge> N\<close> forms the single chunk \<open>[queue]\<close>.
\<close>

theorem processDownloadQueue_chunks:
  assumes "0 < k"
  shows "\<exists>chunks trace s'.
           build_chunks queue k 0 [] = Some chunks
         \<and> processDownloadQueue latency settle queue k s = Some (trace, s')
         \<and> int (length chunks) = \<lceil>real (length queue) / real_of_int k\<rceil>
         \<and> concat chunks = queue
         \<and> (\<forall>j < length chunks. chunks ! j = js_slice queue (int j * k) (int j * k + k))
         \<and> (\<forall>j. Suc j < length chunks \<longrightarrow> int (length (chunks ! j)) = k)
         \<and> (\<forall>c \<in> set chunks. 0 < length c \<and> int (length c) \<le> k)
         \<and> (\<forall>j < length chunks.
               trace = concat (map (chunk_events latency) (take j chunks))
                       @ map Launch (chunks ! j)
                       @ map Settle (sort_key latency (chunks ! j))
                       @ concat (map (chunk_events latency) (drop (Suc j) chunks))
             \<and> (\<forall>i < j. \<forall>t \<in> set (chunks ! i).
                   Settle t \<in> set (concat (map (chunk_events latency) (take j chunks)))))
         \<and> s' = fold settle (concat (map (sort_key latency) chunks)) s
         \<and> (queue \<noteq> [] \<and> int (length queue) \<le> k \<longrightarrow> chunks = [queue])"
proof -
  define K where "K = nat k"
  define chunks where "chunks = chunk_list K queue"
  define trace where "trace = concat (map (chunk_events latency) chunks)"
  have K: "0 < K" "int K = k" using assms by (simp_all add: K_def)
  have built: "build_chunks queue k 0 [] = Some chunks"
    using build_chunks_from_start [OF assms] by (simp add: chunks_def K_def)
  have run: "processDownloadQueue latency settle queue k s
             = Some (trace, fold settle (concat (map (sort_key latency) chunks)) s)"
    by (simp add: processDownloadQueue_def built fold_run_chunk trace_def)
  have rK: "real_of_int k = real K" using assms by (simp add: K_def)
  have len: "int (length chunks) = \<lceil>real (length queue) / real_of_int k\<rceil>"
    using ceiling_div_chunks [OF K(1), of "length queue"] K(1)
    by (simp add: chunks_def length_chunk_list rK)
  have cat: "concat chunks = queue"
    using K(1) by (simp add: chunks_def concat_chunk_list)
  have nth: "chunks ! j = js_slice queue (int j * k) (int j * k + k)" if "j < length chunks" for j
  proof -
    have "chunks ! j = take K (drop (j * K) queue)"
      using that K(1) by (simp add: chunks_def nth_chunk_list)
    also have "\<dots> = js_slice queue (int (j * K)) (int (j * K) + int K)"
      by (rule js_slice_window [OF K(1), symmetric])
    finally show ?thesis using K(2) by simp
  qed
  have full: "int (length (chunks ! j)) = k" if "Suc j < length chunks" for j
    using chunk_list_full [OF K(1), of j queue] that K(2) by (simp add: chunks_def)
  have sizes: "0 < length c \<and> int (length c) \<le> k" if "c \<in> set chunks" for c
    using chunk_list_lengths [OF K(1), of c queue] that K(2) by (simp add: chunks_def)
  have split: "trace = concat (map (chunk_events latency) (take j chunks))
                       @ map Launch (chunks ! j)
                       @ map Settle (sort_key latency (chunks ! j))
                       @ concat (map (chunk_events latency) (drop (Suc j) chunks))"
    if "j < length chunks" for j
  proof -
    have "chunks = take j chunks @ chunks ! j # drop (Suc j) chunks"
      using that by (rule id_take_nth_drop)
    then have "trace = concat (map (chunk_events latency)
                                 (take j chunks @ chunks ! j # drop (Suc j) chunks))"
      by (simp add: trace_def)
    then show ?thesis by (simp add: chunk_events_def)
  qed
  have before: "Settle t \<in> set (concat (map (chunk_events latency) (take j chunks)))"
    if "j < length chunks" "i < j" "t \<in> set (chunks ! i)" for i j t
  proof -
    have "chunks ! i \<in> set (take j chunks)"
      using that by (auto simp: in_set_conv_nth intro!: exI [of _ i])
    then show ?thesis using that(3) chunk_events_settles by fastforce
  qed
  have single: "chunks = [queue]" if "queue \<noteq> [] \<and> int (length queue) \<le> k"
  proof -
    have "length queue \<le> K" using that K(2) by simp
    then show ?thesis
      using that K(1) by (simp add: chunks_def chunk_list.simps [of K queue])
  qed
  show ?thesis
    using built run len cat nth full sizes split before single by blast
qed

text \<open>
  Claim C4 (as amended). A configured \<open>maxConcurrent\<close> of 0 is neither rejected nor
  clamped to 1: it is replaced by the default 20. For every queue and every configured
  value whose effective value is positive, queue processing terminates, and the trace
  launches every thunk of the queue once, in queue order, and settles every thunk once.
\<close>

theorem processDownloadQueue_terminates:
  assumes "0 < effective_maxConcurrent k"
  shows "effective_maxConcurrent 0 = 20
       \<and> (\<exists>trace s'.
           processDownloadQueue latency settle queue (effective_maxConcurrent k) s
             = Some (trace, s')
         \<and> launched trace = queue
         \<and> mset (settled trace) = mset queue)"
proof -
  define K where "K = nat (effective_maxConcurrent k)"
  define chunks where "chunks = chunk_list K queue"
  have K: "0 < K" using assms by (simp add: K_def)
  have built: "build_chunks queue (effective_maxConcurrent k) 0 [] = Some chunks"
    using build_chunks_from_start [OF assms] by (simp add: chunks_def K_def)
  have cat: "concat chunks = queue"
    using K by (simp add: chunks_def concat_chunk_list)
  have "processDownloadQueue latency settle queue (effective_maxConcurrent k) s
        = Some (concat (map (chunk_events latency) chunks),
                fold settle (concat (map (sort_key latency) chunks)) s)"
    by (simp add: processDownloadQueue_def built fold_run_chunk)
  moreover have "launched (concat (map (chunk_events latency) chunks)) = queue"
    using cat by (simp add: launched_chunks)
  moreover have "mset (settled (concat (map (chunk_events latency) chunks))) = mset queue"
    using cat by (simp add: settled_chunks)
  moreover have "effective_maxConcurrent 0 = 20"
    by (simp add: effective_maxConcurrent_def MAX_CONCURRENT_DOWNLOADS_def)
  ultimately show ?thesis by blast
qed

theorem processDownloadQueue_terminates_witness:
  "0 < effective_maxConcurrent 0
   \<and> (\<exists>trace s'.
         processDownloadQueue (\<lambda>t. 0) (\<lambda>t s. Suc s) [0, 1, 2 :: nat] (effective_maxConcurrent 0)
           (0 :: nat) = Some (trace, s')
       \<and> launched trace = [0, 1, 2] \<and> mset (settled trace) = mset [0, 1, 2])"
proof -
  have pos: "0 < effective_maxConcurrent 0"
    by (simp add: effective_maxConcurrent_def MAX_CONCURRENT_DOWNLOADS_def)
  from processDownloadQueue_terminates [OF pos, of "\<lambda>t. 0" "\<lambda>t s. Suc s" "[0, 1, 2]" 0] pos
  show ?thesis by blast
qed

text \<open>
  Non-positive values: 0 becomes 20 rather than 1, a negative value is passed on
  unchanged, and with a non-positive value the chunk-building loop over a non-empty queue
  never exits.
\<close>

theorem processDownloadQueue_nonpositive_counterexample:
  "effective_maxConcurrent 0 = 20
   \<and> effective_maxConcurrent (- 1) = - 1
   \<and> processDownloadQueue (\<lambda>t. 0) (\<lambda>t s. s) [0 :: nat] (effective_maxConcurrent (- 1)) (0 :: nat)
       = None
   \<and> processDownloadQueue (\<lambda>t. 0) (\<lambda>t s. s) [0 :: nat] 0 (0 :: nat) = None"
  by (simp add: effective_maxConcurrent_def MAX_CONCURRENT_DOWNLOADS_def
        processDownloadQueue_def build_chunks_None)

theorem processDownloadQueue_chunks_witness:
  "(0 :: int) < 20 \<and> length queue_1000 = 1000
   \<and> (\<exists>chunks trace s'.
         build_chunks queue_1000 20 0 [] = Some chunks
       \<and> processDownloadQueue (\<lambda>t. 0) (\<lambda>t s. Suc s) queue_1000 20 (0 :: nat) = Some (trace, s')
       \<and> length chunks = 50
       \<and> concat chunks = queue_1000
       \<and> chunks ! 49 = js_slice queue_1000 980 1000
       \<and> length (chunks ! 0) = 20)"
proof -
  have pos: "(0 :: int) < 20" by simp
  have len: "length queue_1000 = 1000" by (simp add: queue_1000_def)
  obtain chunks trace s' where
    b: "build_chunks queue_1000 20 0 [] = Some chunks" and
    r: "processDownloadQueue (\<lambda>t. 0) (\<lambda>t s. Suc s) queue_1000 20 (0 :: nat) = Some (trace, s')" and
    l: "int (length chunks) = \<lceil>real (length queue_1000) / real_of_int 20\<rceil>" and
    c: "concat chunks = queue_1000" and
    n: "\<forall>j < length chunks. chunks ! j = js_slice queue_1000 (int j * 20) (int j * 20 + 20)" and
    f: "\<forall>j. Suc j < length chunks \<longrightarrow> int (length (chunks ! j)) = 20"
    using processDownloadQueue_chunks [OF pos, of queue_1000 "\<lambda>t. 0" "\<lambda>t s. Suc s" 0]
    by (elim exE conjE) 
  have "\<lceil>real (length queue_1000) / real_of_int 20\<rceil> = 50" by (simp add: len)
  with l have l': "length chunks = 50" by simp
  have k49: "(49 :: nat) < length chunks" by (simp add: l')
  from n [rule_format, OF k49]
  have n': "chunks ! 49 = js_slice queue_1000 980 1000" by simp
  have k0: "Suc 0 < length chunks" by (simp add: l')
  from f [rule_format, OF k0] have f': "length (chunks ! 0) = 20" by simp
  from b r l' c n' f' have "\<exists>chunks trace s'.
         build_chunks queue_1000 20 0 [] = Some chunks
       \<and> processDownloadQueue (\<lambda>t. 0) (\<lambda>t s. Suc s) queue_1000 20 (0 :: nat) = Some (trace, s')
       \<and> length chunks = 50
       \<and> concat chunks = queue_1000
       \<and> chunks ! 49 = js_slice queue_1000 980 1000
       \<and> length (chunks ! 0) = 20"
    by (intro exI conjI)
  with pos len show ?thesis by (intro conjI)
qed

section \<open>Properties of the socket layer\<close>

text \<open>
  Claim C6. Each of \<open>emitProgress\<close>, \<open>emitCompletion\<close> and \<open>emitError\<close> makes exactly
  two emissions of one and the same payload: the first to the room named by the job
  identifier, the second to all connected clients. On a server \<open>io\<close> the messages that
  reach the sockets are therefore the payload for every socket joined to the room,
  followed by the same payload for every connected socket, joined or not.
\<close>

theorem emit_two_audiences:
  "emitProgress jobId event data = [(Room jobId, event, data), (AllClients, event, data)]
   \<and> emitCompletion jobId event data = [(Room jobId, event, data), (AllClients, event, data)]
   \<and> emitError ts jobId event err
       = [(Room jobId, event, ErrorData jobId (message_or_error err) ts),
          (AllClients, event, ErrorData jobId (message_or_error err) ts)]
   \<and> deliver_all io (emitProgress jobId event data)
       = map (\<lambda>s. (s, event, data)) (filter (\<lambda>s. jobId \<in> set (rooms io s)) (sockets io))
         @ map (\<lambda>s. (s, event, data)) (sockets io)
   \<and> deliver_all io (emitCompletion jobId event data)
       = map (\<lambda>s. (s, event, data)) (filter (\<lambda>s. jobId \<in> set (rooms io s)) (sockets io))
         @ map (\<lambda>s. (s, event, data)) (sockets io)
   \<and> deliver_all io (emitError ts jobId event err)
       = map (\<lambda>s. (s, event, ErrorData jobId (message_or_error err) ts))
           (filter (\<lambda>s. jobId \<in> set (rooms io s)) (sockets io))
         @ map (\<lambda>s. (s, event, ErrorData jobId (message_or_error err) ts)) (sockets io)"
  by (simp add: emitProgress_def emitCompletion_def emitError_def deliver_all_def deliver_def
        Let_def)

section \<open>Counting and queueing agree\<close>

lemma queue_columns_acc:
  "queue_columns e r row cols (rs, q)
   = (rs @ fst (queue_columns e r row cols ([], [])), q @ snd (queue_columns e r row cols ([], [])))"
proof (induction cols arbitrary: rs q)
  case Nil
  show ?case by simp
next
  case (Cons c cols)
  obtain colName folderName where c: "c = (colName, folderName)" by (cases c)
  show ?case
    unfolding c
    by (simp add: Let_def Cons.IH [of "rs @ _" q] Cons.IH [of "[_]" "[]"]
          Cons.IH [of rs "q @ _"] Cons.IH [of "[]" "[_]"])
qed

lemma count_columns_queue:
  "count_columns e row cols (t, s)
   = (t + length (snd (queue_columns e r row cols ([], []))),
      s + length (fst (queue_columns e r row cols ([], []))))"
proof (induction cols arbitrary: t s)
  case Nil
  show ?case by simp
next
  case (Cons c cols)
  obtain colName folderName where c: "c = (colName, folderName)" by (cases c)
  show ?case
    unfolding c
    by (simp add: Let_def Cons.IH queue_columns_acc [of e r row cols "[_]" "[]"]
          queue_columns_acc [of e r row cols "[]" "[_]"])
qed

lemma queue_rows_acc:
  "queue_rows e config i rows (rs, q)
   = (rs @ fst (queue_rows e config i rows ([], [])), q @ snd (queue_rows e config i rows ([], [])))"
proof (induction rows arbitrary: i rs q)
  case Nil
  show ?case by simp
next
  case (Cons row rows)
  show ?case
  proof (cases row)
    case None
    then show ?thesis using Cons.IH [of "Suc i" rs q] by simp
  next
    case (Some r)
    show ?thesis
    proof (cases "truthy (reg_no r)")
      case False
      then show ?thesis
        unfolding Some
        using Cons.IH [of "Suc i" "rs @ [skipped_result e (''row-'' @ show_nat (i + 1))
                            (''Row '' @ show_nat (i + 1)) ''N/A''
                            ''No registration number found'']" q]
              Cons.IH [of "Suc i" "[skipped_result e (''row-'' @ show_nat (i + 1))
                            (''Row '' @ show_nat (i + 1)) ''N/A''
                            ''No registration number found'']" "[]"]
        by simp
    next
      case True
      let ?c = "queue_columns e (to_string (reg_no r)) r (column_entries config) ([], [])"
      have a: "queue_columns e (to_string (reg_no r)) r (column_entries config) (rs, q)
               = (rs @ fst ?c, q @ snd ?c)"
        by (rule queue_columns_acc)
      show ?thesis
        unfolding Some
        using True Cons.IH [of "Suc i" "rs @ fst ?c" "q @ snd ?c"]
              Cons.IH [of "Suc i" "fst ?c" "snd ?c"]
        by (simp add: a)
    qed
  qed
qed

lemma count_rows_queue:
  "count_rows e config rows (t, s)
   = (t + length (snd (queue_rows e config i rows ([], []))),
      s + length (fst (queue_rows e config i rows ([], []))))"
proof (induction rows arbitrary: i t s)
  case Nil
  show ?case by simp
next
  case (Cons row rows)
  show ?case
  proof (cases row)
    case None
    then show ?thesis using Cons.IH [of t s "Suc i"] by simp
  next
    case (Some r)
    show ?thesis
    proof (cases "truthy (reg_no r)")
      case False
      then show ?thesis
        unfolding Some
        using Cons.IH [of t "Suc s" "Suc i"]
              queue_rows_acc [of e config "Suc i" rows
                "[skipped_result e (''row-'' @ show_nat (i + 1))
                            (''Row '' @ show_nat (i + 1)) ''N/A''
                            ''No registration number found'']" "[]"]
        by simp
    next
      case True
      let ?c = "queue_columns e (to_string (reg_no r)) r (column_entries config) ([], [])"
      have a: "count_columns e r (column_entries config) (t, s)
               = (t + length (snd ?c), s + length (fst ?c))"
        by (rule count_columns_queue)
      show ?thesis
        unfolding Some
        using True Cons.IH [of "t + length (snd ?c)" "s + length (fst ?c)" "Suc i"]
              queue_rows_acc [of e config "Suc i" rows "fst ?c" "snd ?c"]
        by (simp add: a)
    qed
  qed
qed


section \<open>Statuses\<close>

lemma queue_columns_skipped:
  "r \<in> set (fst (queue_columns e rn row cols ([], []))) \<Longrightarrow> status r = Skipped"
proof (induction cols)
  case Nil
  then show ?case by simp
next
  case (Cons c cols)
  obtain colName folderName where c: "c = (colName, folderName)" by (cases c)
  from Cons.prems show ?case
    unfolding c
    by (auto simp: Let_def skipped_result_def queue_columns_acc [of e rn row cols "[_]" "[]"]
          queue_columns_acc [of e rn row cols "[]" "[_]"]
          split: if_splits dest: Cons.IH)
qed

lemma queue_rows_skipped:
  "r \<in> set (fst (queue_rows e config i rows ([], []))) \<Longrightarrow> status r = Skipped"
proof (induction rows arbitrary: i)
  case Nil
  then show ?case by simp
next
  case (Cons row rows)
  let ?rest = "queue_rows e config (Suc i) rows ([], [])"
  show ?case
  proof (cases row)
    case None
    then show ?thesis using Cons.prems Cons.IH [of "Suc i"] by simp
  next
    case (Some sr)
    show ?thesis
    proof (cases "truthy (reg_no sr)")
      case False
      let ?sk = "skipped_result e (''row-'' @ show_nat (i + 1))
                   (''Row '' @ show_nat (i + 1)) ''N/A'' ''No registration number found''"
      have "queue_rows e config i (row # rows) ([], [])
            = queue_rows e config (Suc i) rows ([?sk], [])"
        using False Some by simp
      also have "\<dots> = ([?sk] @ fst ?rest, [] @ snd ?rest)" by (rule queue_rows_acc)
      finally have "fst (queue_rows e config i (row # rows) ([], [])) = ?sk # fst ?rest"
        by simp
      with Cons.prems have "r = ?sk \<or> r \<in> set (fst ?rest)" by simp
      then show ?thesis using Cons.IH [of "Suc i"] by (auto simp: skipped_result_def)
    next
      case True
      let ?c = "queue_columns e (to_string (reg_no sr)) sr (column_entries config) ([], [])"
      have "queue_rows e config i (row # rows) ([], [])
            = queue_rows e config (Suc i) rows (fst ?c, snd ?c)"
        using True Some by simp
      also have "\<dots> = (fst ?c @ fst ?rest, snd ?c @ snd ?rest)" by (rule queue_rows_acc)
      finally have "fst (queue_rows e config i (row # rows) ([], [])) = fst ?c @ fst ?rest"
        by simp
      with Cons.prems have "r \<in> set (fst ?c) \<or> r \<in> set (fst ?rest)" by simp
      then show ?thesis using Cons.IH [of "Suc i"] queue_columns_skipped by blast
    qed
  qed
qed

lemma processDocument_status:
  "status (snd (processDocument e rn col folder link jobId)) \<in> {Success, Failed}"
  by (auto simp: processDocument_def Let_def invalid_link_result_def caught_result_def
        download_failed_result_def success_result_def
        split: option.splits sum.splits prod.splits if_splits)

lemma task_result_status: "status (task_result e jobId t) \<in> {Success, Failed}"
  unfolding task_result_def by (rule processDocument_status)

section \<open>The queued thunks\<close>

lemma settle_task_results [simp]:
  "results (settle_task e jobId n t s) = results s @ [task_result e jobId t]"
  by (simp add: settle_task_def task_result_def Let_def split: prod.splits)

lemma settle_task_completed [simp]:
  "completedTasks (settle_task e jobId n t s) = Suc (completedTasks s)"
  by (simp add: settle_task_def Let_def split: prod.splits)

lemma fold_settle_results:
  "results (fold (settle_task e jobId n) ts s) = results s @ map (task_result e jobId) ts"
  by (induction ts arbitrary: s) simp_all

lemma fold_settle_completed:
  "completedTasks (fold (settle_task e jobId n) ts s) = completedTasks s + length ts"
  by (induction ts arbitrary: s) simp_all

lemma build_chunks_empty: "build_chunks [] k 0 acc = Some acc"
  by (subst build_chunks.simps) simp

lemma mset_concat_sort_key:
  "mset (concat (map (sort_key lat) cs)) = mset (concat cs)"
  by (induction cs) simp_all

lemma settled_chunk_events:
  "settled (concat (map (chunk_events lat) cs)) = concat (map (sort_key lat) cs)"
  by (induction cs) (simp_all add: chunk_events_def)

lemma processDownloadQueue_SomeD:
  assumes "processDownloadQueue lat settle q k s0 = Some (tr, s)"
  shows "\<exists>ts. ts = settled tr \<and> mset ts = mset q \<and> s = fold settle ts s0 \<and> launched tr = q"
proof (cases "0 < k")
  case True
  let ?chunks = "chunk_list (nat k) q"
  have cat: "concat ?chunks = q" using True by (simp add: concat_chunk_list)
  have "processDownloadQueue lat settle q k s0
        = Some (concat (map (chunk_events lat) ?chunks),
                fold settle (concat (map (sort_key lat) ?chunks)) s0)"
    by (simp add: processDownloadQueue_def build_chunks_from_start [OF True] fold_run_chunk)
  with assms have tr: "tr = concat (map (chunk_events lat) ?chunks)"
    and s: "s = fold settle (concat (map (sort_key lat) ?chunks)) s0" by simp_all
  have "mset (concat (map (sort_key lat) ?chunks)) = mset (concat ?chunks)"
    by (rule mset_concat_sort_key)
  with cat s tr show ?thesis by (auto simp: launched_chunks settled_chunk_events)
next
  case False
  have "q = []"
  proof (rule ccontr)
    assume "q \<noteq> []"
    then have "build_chunks q k 0 [] = None" using False by (intro build_chunks_None) simp_all
    with assms show False by (simp add: processDownloadQueue_def)
  qed
  with assms show ?thesis by (simp add: processDownloadQueue_def build_chunks_empty)
qed

section \<open>Emissions of a run\<close>

lemma count_rows_totals:
  "count_rows e config data (0, 0)
   = (length (download_queue e config data), length (skipped_results e config data))"
  using count_rows_queue [of e config data 0 0 0]
  by (simp add: download_queue_def skipped_results_def)

lemma queue_rows_split:
  "queue_rows e config 0 data ([], [])
   = (skipped_results e config data, download_queue e config data)"
  by (simp add: download_queue_def skipped_results_def)

lemma processExcelFile_unfold:
  assumes "ensureDir e (DOWNLOAD_DIR e) = None"
  shows "processExcelFile e data config jobId
         = (case processDownloadQueue (latency_of e)
                   (settle_task e jobId (length (download_queue e config data)))
                   (download_queue e config data)
                   (effective_maxConcurrent (maxConcurrent config))
                   (initial_state e data config jobId) of
              None \<Rightarrow> None
            | Some (tr, s) \<Rightarrow> Some (finish_run e data config jobId tr s))"
  using assms
  by (simp add: processExcelFile_def count_rows_totals queue_rows_split initial_state_def
        finish_run_def split: option.splits sum.splits prod.splits archive_failure.splits)

lemma settle_task_emitted:
  "emitted (settle_task e jobId n t s)
   = emitted s @ task_emissions e jobId t
     @ emitProgress jobId ''document-fetcher:progress''
         (ItemProgress jobId (Suc (completedTasks s)) n (percentage e (Suc (completedTasks s)) n)
            (task_result e jobId t) (now e))"
  by (simp add: settle_task_def task_emissions_def task_result_def Let_def split: prod.splits)

lemma downloadFileWithProgress_events:
  "(aud, ev, pl) \<in> set (fst (downloadFileWithProgress e fileId path url jobId rn col))
   \<Longrightarrow> ev \<in> {''document-fetcher:download-start'', ''document-fetcher:download-complete'',
              ''document-fetcher:download-error''}"
  by (auto simp: downloadFileWithProgress_def Let_def emitProgress_def
        split: sum.splits option.splits)

lemma processDocument_emissions:
  "fst (processDocument e rn col folder link jobId) = []
   \<or> (\<exists>fileId path. fst (processDocument e rn col folder link jobId)
                      = fst (downloadFileWithProgress e fileId path link jobId rn col))"
  unfolding processDocument_def Let_def
  by (auto split: option.splits sum.splits prod.splits if_splits) (metis fst_conv)+

lemma task_emissions_events:
  assumes "(aud, ev, pl) \<in> set (task_emissions e jobId t)"
  shows "ev \<in> {''document-fetcher:download-start'', ''document-fetcher:download-complete'',
               ''document-fetcher:download-error''}"
proof -
  let ?p = "processDocument e (t_regNo t) (t_colName t) (t_folderName t) (t_link t) jobId"
  from processDocument_emissions [of e "t_regNo t" "t_colName t" "t_folderName t" "t_link t" jobId]
  show ?thesis
  proof
    assume "fst ?p = []"
    with assms show ?thesis by (simp add: task_emissions_def)
  next
    assume "\<exists>fileId path. fst ?p
              = fst (downloadFileWithProgress e fileId path (t_link t) jobId (t_regNo t) (t_colName t))"
    then obtain fileId path where
      "fst ?p = fst (downloadFileWithProgress e fileId path (t_link t) jobId (t_regNo t) (t_colName t))"
      by blast
    with assms show ?thesis
      using downloadFileWithProgress_events [of aud ev pl e fileId path "t_link t" jobId
              "t_regNo t" "t_colName t"]
      by (simp add: task_emissions_def)
  qed
qed

lemma emit_count_append [simp]:
  "emit_count ev (xs @ ys) = emit_count ev xs + emit_count ev ys"
  by (simp add: emit_count_def)

lemma emit_count_emitProgress [simp]:
  "emit_count ev (emitProgress jobId ev' data) = (if ev' = ev then 1 else 0)"
  by (simp add: emit_count_def emitProgress_def)

lemma emit_count_emitCompletion [simp]:
  "emit_count ev (emitCompletion jobId ev' data) = (if ev' = ev then 1 else 0)"
  by (simp add: emit_count_def emitCompletion_def)

lemma emit_count_emitError [simp]:
  "emit_count ev (emitError ts jobId ev' err) = (if ev' = ev then 1 else 0)"
  by (simp add: emit_count_def emitError_def Let_def)




lemma event_payloads_append [simp]:
  "event_payloads aud ev (xs @ ys) = event_payloads aud ev xs @ event_payloads aud ev ys"
  by (simp add: event_payloads_def)

lemma event_payloads_emitProgress [simp]:
  "event_payloads aud ev (emitProgress jobId ev' data)
   = (if ev' = ev \<and> (aud = Room jobId \<or> aud = AllClients) then [data] else [])"
  by (auto simp: event_payloads_def emitProgress_def)

lemma event_payloads_emitCompletion [simp]:
  "event_payloads aud ev (emitCompletion jobId ev' data)
   = (if ev' = ev \<and> (aud = Room jobId \<or> aud = AllClients) then [data] else [])"
  by (auto simp: event_payloads_def emitCompletion_def)

lemma event_payloads_emitError [simp]:
  "event_payloads aud ev (emitError ts jobId ev' err)
   = (if ev' = ev \<and> (aud = Room jobId \<or> aud = AllClients)
      then [ErrorData jobId (message_or_error err) ts] else [])"
  by (auto simp: event_payloads_def emitError_def Let_def)

lemma event_payloads_task_emissions:
  "event_payloads aud ''document-fetcher:progress'' (task_emissions e jobId t) = []"
proof -
  have "filter (\<lambda>x. fst x = aud \<and> fst (snd x) = ''document-fetcher:progress'')
          (task_emissions e jobId t) = []"
    unfolding filter_empty_conv
  proof (intro ballI notI)
    fix x
    assume x: "x \<in> set (task_emissions e jobId t)"
      and "fst x = aud \<and> fst (snd x) = ''document-fetcher:progress''"
    then have "(aud, ''document-fetcher:progress'', snd (snd x)) \<in> set (task_emissions e jobId t)"
      by (metis prod.collapse)
    from task_emissions_events [OF this] show False by simp
  qed
  then show ?thesis by (simp add: event_payloads_def)
qed

lemma fold_settle_payloads:
  "event_payloads aud ''document-fetcher:progress''
     (emitted (fold (settle_task e jobId n) ts s))
   = event_payloads aud ''document-fetcher:progress'' (emitted s)
     @ (if aud = Room jobId \<or> aud = AllClients
        then progress_sequence e jobId n (completedTasks s) ts else [])"
proof (induction ts arbitrary: s)
  case Nil
  show ?case by simp
next
  case (Cons t ts)
  show ?case
    by (simp add: Cons.IH settle_task_emitted event_payloads_task_emissions)
qed

lemma length_progress_sequence [simp]:
  "length (progress_sequence e jobId n c ts) = length ts"
  by (induction ts arbitrary: c) simp_all

lemma nth_progress_sequence:
  "i < length ts \<Longrightarrow>
   progress_sequence e jobId n c ts ! i
   = ItemProgress jobId (c + Suc i) n (percentage e (c + Suc i) n)
       (task_result e jobId (ts ! i)) (now e)"
proof (induction ts arbitrary: c i)
  case Nil
  then show ?case by simp
next
  case (Cons t ts)
  show ?case
  proof (cases i)
    case 0
    then show ?thesis by simp
  next
    case (Suc k)
    then have "k < length ts" using Cons.prems by simp
    from Cons.IH [OF this, of "Suc c"] Suc show ?thesis by simp
  qed
qed

lemma percentage_bounds:
  assumes "mono (to_double e)" and "to_double e 0 = 0" and "to_double e 1 = 1"
    and "to_double e 100 = 100" and "0 < t" and "c \<le> t"
  shows "\<exists>p. percentage e c t = Some p
            \<and> p = to_double e (to_double e (real c / real t) * 100)
            \<and> 0 \<le> p \<and> p \<le> 100"
proof -
  let ?q = "to_double e (real c / real t)"
  have "0 \<le> real c / real t" by simp
  with assms(1) have "to_double e 0 \<le> ?q" by (rule monoD)
  then have q0: "0 \<le> ?q" using assms(2) by simp
  have "real c / real t \<le> 1" using assms(5,6) by simp
  with assms(1) have "?q \<le> to_double e 1" by (rule monoD)
  then have q1: "?q \<le> 1" using assms(3) by simp
  have "0 \<le> ?q * 100" using q0 by simp
  with assms(1) have "to_double e 0 \<le> to_double e (?q * 100)" by (rule monoD)
  then have p0: "0 \<le> to_double e (?q * 100)" using assms(2) by simp
  have "?q * 100 \<le> 1 * 100" using q1 by (intro mult_right_mono) simp_all
  then have "?q * 100 \<le> 100" by simp
  with assms(1) have "to_double e (?q * 100) \<le> to_double e 100" by (rule monoD)
  then have p1: "to_double e (?q * 100) \<le> 100" using assms(4) by simp
  from p0 p1 assms(5) show ?thesis by (simp add: percentage_def)
qed

section \<open>The structure of a run\<close>

lemma finish_run_trace [simp]: "sched_trace (finish_run e data config jobId tr s) = tr"
  by (simp add: finish_run_def split: sum.splits prod.splits archive_failure.splits)

lemma processExcelFile_ensureDir_fails:
  assumes "ensureDir e (DOWNLOAD_DIR e) = Some err"
  shows "processExcelFile e data config jobId
         = Some \<lparr> emissions = [], sched_trace = [], archive = None, returned = Inl err,
                  uncaught = None \<rparr>"
  using assms by (simp add: processExcelFile_def)

lemma processExcelFile_run:
  assumes "processExcelFile e data config jobId = Some out"
    and "ensureDir e (DOWNLOAD_DIR e) = None"
  shows "\<exists>tr. mset (settled tr) = mset (download_queue e config data)
            \<and> launched tr = download_queue e config data
            \<and> out = finish_run e data config jobId tr
                      (fold (settle_task e jobId (length (download_queue e config data)))
                         (settled tr) (initial_state e data config jobId))"
proof -
  let ?Q = "download_queue e config data"
  let ?run = "processDownloadQueue (latency_of e) (settle_task e jobId (length ?Q)) ?Q
                (effective_maxConcurrent (maxConcurrent config)) (initial_state e data config jobId)"
  from assms obtain tr s where q: "?run = Some (tr, s)"
    and out: "out = finish_run e data config jobId tr s"
    by (auto simp: processExcelFile_unfold split: option.splits)
  from processDownloadQueue_SomeD [OF q]
  have "mset (settled tr) = mset ?Q"
    "s = fold (settle_task e jobId (length ?Q)) (settled tr) (initial_state e data config jobId)"
    "launched tr = ?Q" by auto
  with out show ?thesis by auto
qed

lemma fold_settle_emitted_mono:
  "set (emitted s) \<subseteq> set (emitted (fold (settle_task e jobId n) ts s))"
proof (induction ts arbitrary: s)
  case Nil
  show ?case by simp
next
  case (Cons t ts)
  have "set (emitted s) \<subseteq> set (emitted (settle_task e jobId n t s))"
    by (simp add: settle_task_emitted)
  also have "\<dots> \<subseteq> set (emitted (fold (settle_task e jobId n) ts (settle_task e jobId n t s)))"
    by (rule Cons.IH)
  finally show ?case by simp
qed

lemma count_status_append [simp]:
  "count_status st (xs @ ys) = count_status st xs + count_status st ys"
  by (simp add: count_status_def)

lemma count_status_all:
  "(\<And>r. r \<in> set rs \<Longrightarrow> status r = st) \<Longrightarrow> count_status st rs = length rs"
  by (induction rs) (simp_all add: count_status_def)

lemma count_status_none:
  "(\<And>r. r \<in> set rs \<Longrightarrow> status r \<noteq> st) \<Longrightarrow> count_status st rs = 0"
  by (induction rs) (simp_all add: count_status_def)

lemma count_status_task_results:
  "count_status Success (map (task_result e jobId) ts)
   + count_status Failed (map (task_result e jobId) ts) = length ts"
proof (induction ts)
  case Nil
  show ?case by (simp add: count_status_def)
next
  case (Cons t ts)
  from task_result_status [of e jobId t]
  have "status (task_result e jobId t) = Success \<or> status (task_result e jobId t) = Failed"
    by simp
  then show ?case using Cons.IH by (auto simp: count_status_def)
qed

lemma skipped_results_status: "r \<in> set (skipped_results e config data) \<Longrightarrow> status r = Skipped"
  unfolding skipped_results_def by (rule queue_rows_skipped)

text \<open>
  Claim C3 (as amended). When a batch completes, every result carries one of the statuses
  success, failed and skipped. The successes and failures together are as many as the
  \<open>totalTasks\<close> of the start event, which is also the \<open>totalProcessed\<close> of the complete
  event; the skipped results are as many as the \<open>skippedTasks\<close> of the start event, which
  is also the \<open>totalSkipped\<close> of the complete event. So the three counts add up to
  \<open>totalTasks + skippedTasks\<close>, not to the total the events carry.
\<close>

theorem results_partition:
  assumes "processExcelFile e data config jobId = Some out"
    and "returned out = Inr rs"
  shows "status ` set rs \<subseteq> {Success, Failed, Skipped}
       \<and> count_status Success rs + count_status Failed rs = fst (count_rows e config data (0, 0))
       \<and> count_status Skipped rs = snd (count_rows e config data (0, 0))
       \<and> length rs = count_status Success rs + count_status Failed rs + count_status Skipped rs
       \<and> (AllClients, ''document-fetcher:start'',
           ServiceStart jobId (length data) (fst (count_rows e config data (0, 0)))
             (snd (count_rows e config data (0, 0))) (fst (count_rows e config data (0, 0)))
             (now e)) \<in> set (emissions out)
       \<and> (\<exists>zipPath. (AllClients, ''document-fetcher:complete'',
              ServiceComplete jobId (fst (count_rows e config data (0, 0)))
                (snd (count_rows e config data (0, 0))) zipPath rs (now e))
              \<in> set (emissions out))"
proof -
  let ?Q = "download_queue e config data"
  let ?S = "skipped_results e config data"
  have dir: "ensureDir e (DOWNLOAD_DIR e) = None"
  proof (cases "ensureDir e (DOWNLOAD_DIR e)")
    case None
    then show ?thesis .
  next
    case (Some err)
    from processExcelFile_ensureDir_fails [OF this, of data config jobId] assms
    show ?thesis by auto
  qed
  from processExcelFile_run [OF assms(1) dir]
  obtain ts tr where ts: "mset ts = mset ?Q"
    and out: "out = finish_run e data config jobId tr
                      (fold (settle_task e jobId (length ?Q)) ts (initial_state e data config jobId))"
    by blast
  let ?s = "fold (settle_task e jobId (length ?Q)) ts (initial_state e data config jobId)"
  have len: "length ts = length ?Q" using ts by (rule mset_eq_length)
  have res: "results ?s = ?S @ map (task_result e jobId) ts"
    by (simp add: fold_settle_results initial_state_def)
  have completed: "completedTasks ?s = length ?Q"
    by (simp add: fold_settle_completed initial_state_def len)
  obtain zipPath entries where zip: "createZipArchive e jobId (results ?s) = Inr (zipPath, entries)"
    and rs: "rs = results ?s"
    using assms(2) unfolding out by (cases "createZipArchive e jobId (results ?s)")
      (auto simp: finish_run_def split: sum.splits prod.splits archive_failure.splits)
  have emis: "emissions out = emitted ?s
                @ emitCompletion jobId ''document-fetcher:complete''
                    (ServiceComplete jobId (length ?Q) (length ?S) zipPath rs (now e))"
    using zip rs completed unfolding out by (simp add: finish_run_def)
  have totals: "fst (count_rows e config data (0, 0)) = length ?Q"
    "snd (count_rows e config data (0, 0)) = length ?S"
    by (simp_all add: count_rows_totals)
  have st: "status ` set rs \<subseteq> {Success, Failed, Skipped}"
    using res rs task_result_status skipped_results_status by fastforce
  have "status r \<noteq> Skipped" if "r \<in> set (map (task_result e jobId) ts)" for r
  proof -
    from that obtain t where "r = task_result e jobId t" by auto
    with task_result_status [of e jobId t] show ?thesis by auto
  qed
  then have tasks_not_skipped: "count_status Skipped (map (task_result e jobId) ts) = 0"
    by (intro count_status_none) blast
  have skipped_all: "count_status Skipped ?S = length ?S"
    using skipped_results_status by (intro count_status_all) blast
  have skipped_no_success: "count_status Success ?S = 0"
    using skipped_results_status by (intro count_status_none) fastforce
  have skipped_no_failed: "count_status Failed ?S = 0"
    using skipped_results_status by (intro count_status_none) fastforce
  have c1: "count_status Success rs + count_status Failed rs = length ?Q"
    using count_status_task_results [of e jobId ts] len
    by (simp add: rs res skipped_no_success skipped_no_failed)
  have c2: "count_status Skipped rs = length ?S"
    by (simp add: rs res tasks_not_skipped skipped_all)
  have c3: "length rs = count_status Success rs + count_status Failed rs + count_status Skipped rs"
    using c1 c2 len by (simp add: rs res)
  have start_in: "(AllClients, ''document-fetcher:start'',
           ServiceStart jobId (length data) (length ?Q) (length ?S) (length ?Q) (now e))
           \<in> set (emitted ?s)"
  proof -
    have "set (emitted (initial_state e data config jobId)) \<subseteq> set (emitted ?s)"
      by (rule fold_settle_emitted_mono)
    moreover have "(AllClients, ''document-fetcher:start'',
           ServiceStart jobId (length data) (length ?Q) (length ?S) (length ?Q) (now e))
           \<in> set (emitted (initial_state e data config jobId))"
      by (simp add: initial_state_def emitProgress_def)
    ultimately show ?thesis by blast
  qed
  have complete_in: "(AllClients, ''document-fetcher:complete'',
              ServiceComplete jobId (length ?Q) (length ?S) zipPath rs (now e))
              \<in> set (emissions out)"
    by (simp add: emis emitCompletion_def)
  from st c1 c2 c3 start_in complete_in show ?thesis
    unfolding totals by (auto simp: emis)
qed

text \<open>
  Claim C7. The emissions of the event \<open>document-fetcher:progress\<close> of a run go to the
  job's room and to all clients, and to no other audience. To each of the two there is one
  emission for every task that has settled, in the order in which the tasks settle. The
  emission for the task that settles as number \<open>i + 1\<close> carries the job id, the completed
  count \<open>i + 1\<close>, the total number of download tasks, the result of that very task, and
  the percentage \<open>((i + 1) / total) * 100\<close> as double-precision arithmetic computes it: the
  quotient is rounded, and so is the product. The count is at most the total, and if the
  rounding is monotone and leaves 0, 1 and 100 as they are, as the rounding to the nearest
  double does, the percentage lies in the interval from 0 to 100. When the download directory exists, the settled tasks are the
  queued tasks, each one once; when the batch completes, the results returned are the
  skipped results followed by the results of the tasks in the order of their progress
  events.
\<close>

theorem progress_payload:
  assumes "processExcelFile e data config jobId = Some out"
  shows "(\<forall>aud. aud \<noteq> Room jobId \<and> aud \<noteq> AllClients \<longrightarrow>
            event_payloads aud ''document-fetcher:progress'' (emissions out) = [])
       \<and> (\<forall>aud. aud = Room jobId \<or> aud = AllClients \<longrightarrow>
            length (event_payloads aud ''document-fetcher:progress'' (emissions out))
            = length (settled (sched_trace out)))
       \<and> (\<forall>aud i. (aud = Room jobId \<or> aud = AllClients)
                  \<and> i < length (settled (sched_trace out)) \<longrightarrow>
            event_payloads aud ''document-fetcher:progress'' (emissions out) ! i
            = ItemProgress jobId (Suc i) (fst (count_rows e config data (0, 0)))
                (Some (to_double e
                   (to_double e (real (Suc i) / real (fst (count_rows e config data (0, 0))))
                    * 100)))
                (task_result e jobId (settled (sched_trace out) ! i)) (now e))
       \<and> length (settled (sched_trace out)) \<le> fst (count_rows e config data (0, 0))
       \<and> (mono (to_double e) \<and> to_double e 0 = 0 \<and> to_double e 1 = 1
            \<and> to_double e 100 = 100 \<longrightarrow>
           (\<forall>i. i < length (settled (sched_trace out)) \<longrightarrow>
              0 \<le> to_double e
                     (to_double e (real (Suc i) / real (fst (count_rows e config data (0, 0))))
                      * 100)
            \<and> to_double e
                  (to_double e (real (Suc i) / real (fst (count_rows e config data (0, 0))))
                   * 100) \<le> 100))
       \<and> (ensureDir e (DOWNLOAD_DIR e) = None \<longrightarrow>
            mset (settled (sched_trace out)) = mset (download_queue e config data))
       \<and> (\<forall>rs. returned out = Inr rs \<longrightarrow>
            rs = skipped_results e config data
                 @ map (task_result e jobId) (settled (sched_trace out)))"
proof -
  let ?Q = "download_queue e config data"
  let ?S = "skipped_results e config data"
  let ?T = "fst (count_rows e config data (0, 0))"
  let ?ts = "settled (sched_trace out)"
  let ?ev = "''document-fetcher:progress''"
  let ?init = "initial_state e data config jobId"
  have tot: "?T = length ?Q" by (simp add: count_rows_totals)
  have run: "(\<forall>aud. event_payloads aud ?ev (emissions out)
                 = (if aud = Room jobId \<or> aud = AllClients
                    then progress_sequence e jobId ?T 0 ?ts else []))
           \<and> length ?ts \<le> ?T
           \<and> (ensureDir e (DOWNLOAD_DIR e) = None \<longrightarrow> mset ?ts = mset ?Q)
           \<and> (\<forall>rs. returned out = Inr rs \<longrightarrow> rs = ?S @ map (task_result e jobId) ?ts)"
  proof (cases "ensureDir e (DOWNLOAD_DIR e)")
    case (Some err)
    from processExcelFile_ensureDir_fails [OF this, of data config jobId] assms(1)
    have out: "out = \<lparr> emissions = [], sched_trace = [], archive = None, returned = Inl err,
                       uncaught = None \<rparr>"
      by simp
    show ?thesis unfolding out using Some by (simp add: event_payloads_def)
  next
    case None
    from processExcelFile_run [OF assms(1) None]
    obtain tr where ms: "mset (settled tr) = mset ?Q"
      and out: "out = finish_run e data config jobId tr
                        (fold (settle_task e jobId (length ?Q)) (settled tr) ?init)"
      by blast
    let ?s = "fold (settle_task e jobId (length ?Q)) (settled tr) ?init"
    have tr: "sched_trace out = tr" unfolding out by simp
    have len: "length (settled tr) = length ?Q" using ms by (rule mset_eq_length)
    have pay: "event_payloads aud ?ev (emissions out) = event_payloads aud ?ev (emitted ?s)"
      for aud
      unfolding out
      by (simp add: finish_run_def split: sum.splits prod.splits archive_failure.splits)
    have init: "event_payloads aud ?ev (emitted ?init) = []" "completedTasks ?init = 0" for aud
      by (simp_all add: initial_state_def)
    have seq: "event_payloads aud ?ev (emissions out)
               = (if aud = Room jobId \<or> aud = AllClients
                  then progress_sequence e jobId ?T 0 (settled tr) else [])" for aud
      unfolding pay tot
      using fold_settle_payloads [of aud e jobId "length ?Q" "settled tr" ?init]
      by (simp only: init append_Nil)
    have res: "results ?s = ?S @ map (task_result e jobId) (settled tr)"
      by (simp add: fold_settle_results initial_state_def)
    have ret: "rs = results ?s" if "returned out = Inr rs" for rs
      using that unfolding out
      by (auto simp: finish_run_def split: sum.splits prod.splits archive_failure.splits)
    from seq len ms ret res show ?thesis unfolding tr tot by simp
  qed
  have seq: "event_payloads aud ?ev (emissions out)
             = (if aud = Room jobId \<or> aud = AllClients
                then progress_sequence e jobId ?T 0 ?ts else [])" for aud
    using run by blast
  have le: "length ?ts \<le> ?T" using run by blast
  have c1: "\<forall>aud. aud \<noteq> Room jobId \<and> aud \<noteq> AllClients \<longrightarrow>
              event_payloads aud ?ev (emissions out) = []"
    by (simp add: seq)
  have c2: "\<forall>aud. aud = Room jobId \<or> aud = AllClients \<longrightarrow>
              length (event_payloads aud ?ev (emissions out)) = length ?ts"
    by (simp add: seq)
  have pct: "percentage e (Suc i) ?T
             = Some (to_double e (to_double e (real (Suc i) / real ?T) * 100))"
    if "i < length ?ts" for i
  proof -
    from that le have "0 < ?T" by linarith
    then show ?thesis by (simp add: percentage_def)
  qed
  have bounds: "0 \<le> to_double e (to_double e (real (Suc i) / real ?T) * 100)
              \<and> to_double e (to_double e (real (Suc i) / real ?T) * 100) \<le> 100"
    if rounding: "mono (to_double e) \<and> to_double e 0 = 0 \<and> to_double e 1 = 1
                  \<and> to_double e 100 = 100"
      and "i < length ?ts" for i
  proof -
    from that(2) le have i: "Suc i \<le> ?T" and pos: "0 < ?T" by linarith+
    from rounding have "mono (to_double e)" "to_double e 0 = 0" "to_double e 1 = 1"
      "to_double e 100 = 100" by simp_all
    from percentage_bounds [OF this pos i] show ?thesis by auto
  qed
  have c3: "\<forall>aud i. (aud = Room jobId \<or> aud = AllClients) \<and> i < length ?ts \<longrightarrow>
              event_payloads aud ?ev (emissions out) ! i
              = ItemProgress jobId (Suc i) ?T
                  (Some (to_double e (to_double e (real (Suc i) / real ?T) * 100)))
                  (task_result e jobId (?ts ! i)) (now e)"
  proof (intro allI impI)
    fix aud i
    assume a: "(aud = Room jobId \<or> aud = AllClients) \<and> i < length ?ts"
    then have "event_payloads aud ?ev (emissions out) ! i
               = progress_sequence e jobId ?T 0 ?ts ! i"
      by (simp add: seq)
    also have "\<dots> = ItemProgress jobId (Suc i) ?T (percentage e (Suc i) ?T)
                        (task_result e jobId (?ts ! i)) (now e)"
      using a nth_progress_sequence [of i ?ts e jobId ?T 0] by simp
    finally show "event_payloads aud ?ev (emissions out) ! i
              = ItemProgress jobId (Suc i) ?T
                  (Some (to_double e (to_double e (real (Suc i) / real ?T) * 100)))
                  (task_result e jobId (?ts ! i)) (now e)"
      using a pct [of i] by simp
  qed
  have c4: "mono (to_double e) \<and> to_double e 0 = 0 \<and> to_double e 1 = 1
            \<and> to_double e 100 = 100 \<longrightarrow>
            (\<forall>i. i < length ?ts \<longrightarrow>
               0 \<le> to_double e (to_double e (real (Suc i) / real ?T) * 100)
             \<and> to_double e (to_double e (real (Suc i) / real ?T) * 100) \<le> 100)"
    using bounds by blast
  have c5: "ensureDir e (DOWNLOAD_DIR e) = None \<longrightarrow> mset ?ts = mset ?Q"
    using run by blast
  have c6: "\<forall>rs. returned out = Inr rs \<longrightarrow> rs = ?S @ map (task_result e jobId) ?ts"
    using run by blast
  from c1 c2 c3 le c4 c5 c6 show ?thesis by (intro conjI)
qed

section \<open>Lifecycle events\<close>

lemma processDownloadQueue_empty:
  "processDownloadQueue lat settle [] k s = Some ([], s)"
  by (simp add: processDownloadQueue_def build_chunks_empty)

text \<open>
  Claim C8. For an empty input list, whatever \<open>maxConcurrent\<close> is, and provided the
  download directory can be created and the archiver does not fail: no task is launched,
  the service emits the start event with all totals 0 and then the complete event with
  \<open>totalProcessed = 0\<close>, \<open>totalSkipped = 0\<close> and no results, the archive is written with no
  entry, and the driver adds its own start and complete events; no error event is
  emitted.
\<close>

theorem empty_batch_completes:
  assumes "ensureDir e (DOWNLOAD_DIR e) = None"
    and "archive_error e (path_join [DOWNLOAD_DIR e, ''documents_'' @ jobId @ ''.zip'']) = None"
  shows "processExcelFile e [] config jobId
         = Some \<lparr> emissions =
                    emitProgress jobId ''document-fetcher:start''
                      (ServiceStart jobId 0 0 0 0 (now e))
                    @ emitCompletion jobId ''document-fetcher:complete''
                        (ServiceComplete jobId 0 0
                           (path_join [DOWNLOAD_DIR e, ''documents_'' @ jobId @ ''.zip''])
                           [] (now e)),
                  sched_trace = [],
                  archive = Some (path_join [DOWNLOAD_DIR e, ''documents_'' @ jobId @ ''.zip''], []),
                  returned = Inr [], uncaught = None \<rparr>
       \<and> processDocumentsInBackground e [] config jobId
         = Some (emitProgress jobId ''document-fetcher:start'' (DriverStart jobId 0 config (now e))
                 @ emitProgress jobId ''document-fetcher:start''
                     (ServiceStart jobId 0 0 0 0 (now e))
                 @ emitCompletion jobId ''document-fetcher:complete''
                     (ServiceComplete jobId 0 0
                        (path_join [DOWNLOAD_DIR e, ''documents_'' @ jobId @ ''.zip''])
                        [] (now e))
                 @ emitCompletion jobId ''document-fetcher:complete''
                     (DriverComplete jobId [] (now e)))"
proof -
  have run: "processExcelFile e [] config jobId
         = Some \<lparr> emissions =
                    emitProgress jobId ''document-fetcher:start''
                      (ServiceStart jobId 0 0 0 0 (now e))
                    @ emitCompletion jobId ''document-fetcher:complete''
                        (ServiceComplete jobId 0 0
                           (path_join [DOWNLOAD_DIR e, ''documents_'' @ jobId @ ''.zip''])
                           [] (now e)),
                  sched_trace = [],
                  archive = Some (path_join [DOWNLOAD_DIR e, ''documents_'' @ jobId @ ''.zip''], []),
                  returned = Inr [], uncaught = None \<rparr>"
    using assms
    by (simp add: processExcelFile_def processDownloadQueue_empty createZipArchive_def
          archive_entries_def Let_def)
  then show ?thesis by (simp add: processDocumentsInBackground_def Let_def)
qed



section \<open>Failed results and archive entries in general\<close>

lemma processDocument_error_present:
  assumes "extractFileId link \<noteq> None"
    and "status (snd (processDocument e rn col folder link jobId)) = Failed"
  shows "error (snd (processDocument e rn col folder link jobId)) \<noteq> None"
  using assms
  by (auto simp: processDocument_def Let_def caught_result_def download_failed_result_def
        success_result_def split: option.splits sum.splits prod.splits if_splits)

lemma archive_entries_length:
  "length (archive_entries rs)
   = length (filter (\<lambda>r. status r = Success \<and> filePath r \<noteq> None \<and> filePath r \<noteq> Some []) rs)"
  by (induction rs) (auto simp: archive_entries_def split: option.splits)

section \<open>Runs on concrete inputs\<close>

text \<open>
  Claim C1, evaluated where the code departs from it. The link
  \<open>https://drive.google.com/uc?export=download\<close> passes \<open>isValidGoogleDriveLink\<close>, so the
  row is queued, and \<open>extractFileId\<close> finds no file id in it. \<open>processDocument\<close> returns a
  result with status failed and a message, and the batch completes, but the result has no
  \<open>error\<close> string. The other failed results of \<open>processDocument\<close> do carry one: with the
  network down, a link with a file id gives \<open>error = 'Network Error'\<close>.
\<close>

theorem processDocument_invalid_link_no_error:
  "isValidGoogleDriveLink env_ok link_without_id
   \<and> extractFileId link_without_id = None
   \<and> processDocument env_ok ''R1'' ''Photo'' ''photos'' link_without_id ''job1''
       = ([], result_invalid_link)
   \<and> status result_invalid_link = Failed \<and> error result_invalid_link = None
   \<and> map_option returned (processExcelFile env_ok [Some row_link_without_id] cfg_photo ''job1'')
       = Some (Inr [result_invalid_link])
   \<and> snd (processDocument env_net_down ''R1'' ''Photo'' ''photos''
             ''https://drive.google.com/file/d/abc123/view'' ''job1'')
       = result_network_error
   \<and> error result_network_error = Some ''Network Error''"
  by code_simp

text \<open>
  Claim C5, evaluated where the code departs from it. One row with links in the columns
  \<open>Photo A\<close> and \<open>Photo_A\<close>, both stored in the folder \<open>docs\<close>, gives two successful
  results with different ids. The archive holds one entry for each of them, and the two
  entries have the same name \<open>docs/R1_Photo_A.pdf\<close>.
\<close>

theorem archive_entry_names_collide:
  "map_option returned (processExcelFile env_ok [Some row_two_links] cfg_two_photos ''job1'')
     = Some (Inr [result_photo_space, result_photo_underscore])
   \<and> result_id result_photo_space \<noteq> result_id result_photo_underscore
   \<and> status result_photo_space = Success \<and> status result_photo_underscore = Success
   \<and> map_option archive (processExcelFile env_ok [Some row_two_links] cfg_two_photos ''job1'')
     = Some (Some (''downloads/documents_job1.zip'',
          [\<lparr> entry_source = ''downloads/docs/R1_Photo_A.pdf'',
              entry_name = ''docs/R1_Photo_A.pdf'' \<rparr>,
           \<lparr> entry_source = ''downloads/docs/R1_Photo_A.pdf'',
              entry_name = ''docs/R1_Photo_A.pdf'' \<rparr>]))"
  by code_simp

text \<open>
  The three counts need not add up to the total the events carry: a row with a
  registration number and no link gives one skipped result, while the start event reports \<open>totalTasks = 0\<close> and the complete event
  \<open>totalProcessed = 0\<close>.
\<close>

theorem results_total_counterexample:
  "map_option returned (processExcelFile env_ok [Some row_no_link] cfg_photo ''job1'')
     = Some (Inr [result_no_link])
   \<and> count_status Success [result_no_link] + count_status Failed [result_no_link]
       + count_status Skipped [result_no_link] = 1
   \<and> map_option emissions (processExcelFile env_ok [Some row_no_link] cfg_photo ''job1'')
     = Some (emitProgress ''job1'' ''document-fetcher:start''
               (ServiceStart ''job1'' 1 0 1 0 ''2024-01-01T00:00:00.000Z'')
             @ emitCompletion ''job1'' ''document-fetcher:complete''
                 (ServiceComplete ''job1'' 0 1 ''downloads/documents_job1.zip''
                    [result_no_link] ''2024-01-01T00:00:00.000Z''))"
  by code_simp


text \<open>
  Password lengths outside the range the typed array and the random source accept. With
  the length \<open>-1\<close>, \<open>new Uint8Array\<close> throws: the selected character set is non-empty and
  the filters remove every character, and yet \<open>createPassword\<close> throws instead of
  returning the empty string. With the length 70000, \<open>crypto.getRandomValues\<close> throws: the
  filtered character set is non-empty, and yet no password is returned. The route
  \<open>/generate-bulk\<close> validates the count only and passes such a length on.
\<close>

theorem createPassword_length_counterexample:
  "selected_charset cfg_only_zero_negative = ''0''
   \<and> filtered_charset cfg_only_zero_negative = []
   \<and> pw_length cfg_only_zero_negative = - 1
   \<and> createPassword rnd_sevens cfg_only_zero_negative
       = Inl (JsError ''Invalid typed array length'')
   \<and> filtered_charset cfg_digits_long = ''23456789''
   \<and> pw_length cfg_digits_long = 70000
   \<and> createPassword rnd_sevens cfg_digits_long = Inl (JsError ''Quota exceeded'')"
  by (simp add: createPassword_def selected_charset_def filtered_charset_def
        cfg_only_zero_negative_def cfg_digits_long_def cfg_only_zero_def cfg_digits_def
        similar_chars_def)

lemma run_one_link:
  "processExcelFile env_ok [Some row_one_link] cfg_photo ''job1'' = Some outcome_one_link"
  unfolding outcome_one_link_def by code_simp

section \<open>The general properties at concrete inputs\<close>

lemma returned_one_link: "returned outcome_one_link = Inr [result_one_link]"
  by (simp add: outcome_one_link_def)

theorem results_partition_witness:
  "processExcelFile env_ok [Some row_one_link] cfg_photo ''job1'' = Some outcome_one_link
   \<and> returned outcome_one_link = Inr [result_one_link]
   \<and> count_status Success [result_one_link] + count_status Failed [result_one_link]
       = fst (count_rows env_ok cfg_photo [Some row_one_link] (0, 0))
   \<and> count_status Skipped [result_one_link]
       = snd (count_rows env_ok cfg_photo [Some row_one_link] (0, 0))
   \<and> length [result_one_link]
       = count_status Success [result_one_link] + count_status Failed [result_one_link]
         + count_status Skipped [result_one_link]"
  using results_partition [OF run_one_link returned_one_link] run_one_link returned_one_link
  by blast

lemma mono_round_to_grid: "mono round_to_grid"
proof (rule monoI)
  fix x y :: real
  assume "x \<le> y"
  then have "x * 1048576 \<le> y * 1048576" by simp
  then have "round (x * 1048576) \<le> round (y * 1048576)" by (rule round_mono)
  then show "round_to_grid x \<le> round_to_grid y"
    by (simp add: round_to_grid_def divide_right_mono)
qed

lemma round_to_grid_fixed:
  "round_to_grid 0 = 0" "round_to_grid 1 = 1" "round_to_grid 100 = 100"
  "round_to_grid (1 / 2) = 1 / 2" "round_to_grid 50 = 50"
  by (simp_all add: round_to_grid_def)

lemma to_double_slow_first [simp]: "to_double env_slow_first = round_to_grid"
  by (simp add: env_slow_first_def env_ok_def)

lemma run_two_rows:
  "map_option sched_trace (processExcelFile env_slow_first rows_two_students cfg_photo ''job1'')
   = Some [Launch task_first, Launch task_second, Settle task_second, Settle task_first]
   \<and> map_option returned (processExcelFile env_slow_first rows_two_students cfg_photo ''job1'')
     = Some (Inr [result_second, result_one_link])"
  by code_simp

lemma count_two_rows:
  "fst (count_rows env_slow_first cfg_photo rows_two_students (0, 0)) = 2"
  by code_simp

lemma task_results_two_rows:
  "task_result env_slow_first ''job1'' task_first = result_one_link"
  "task_result env_slow_first ''job1'' task_second = result_second"
  "now env_slow_first = ''2024-01-01T00:00:00.000Z''"
  by code_simp+

theorem progress_payload_witness:
  "mono (to_double env_slow_first) \<and> to_double env_slow_first 0 = 0
   \<and> to_double env_slow_first 1 = 1 \<and> to_double env_slow_first 100 = 100
   \<and> (\<exists>out. processExcelFile env_slow_first rows_two_students cfg_photo ''job1'' = Some out
          \<and> launched (sched_trace out) = [task_first, task_second]
          \<and> settled (sched_trace out) = [task_second, task_first]
          \<and> returned out = Inr [result_second, result_one_link]
          \<and> length (event_payloads AllClients ''document-fetcher:progress'' (emissions out)) = 2
          \<and> event_payloads AllClients ''document-fetcher:progress'' (emissions out) ! 0
            = ItemProgress ''job1'' 1 2 (Some 50) result_second ''2024-01-01T00:00:00.000Z''
          \<and> event_payloads AllClients ''document-fetcher:progress'' (emissions out) ! 1
            = ItemProgress ''job1'' 2 2 (Some 100) result_one_link ''2024-01-01T00:00:00.000Z''
          \<and> event_payloads (Room ''other'') ''document-fetcher:progress'' (emissions out) = []
          \<and> 0 \<le> to_double env_slow_first (to_double env_slow_first (real 1 / real 2) * 100)
          \<and> to_double env_slow_first (to_double env_slow_first (real 1 / real 2) * 100)
              \<le> 100)"
proof -
  have m: "mono (to_double env_slow_first)" by (simp add: mono_round_to_grid)
  have f0: "to_double env_slow_first 0 = 0" by (simp add: round_to_grid_fixed)
  have f1: "to_double env_slow_first 1 = 1" by (simp add: round_to_grid_fixed)
  have f100: "to_double env_slow_first 100 = 100" by (simp add: round_to_grid_fixed)
  from run_two_rows obtain out where
    run: "processExcelFile env_slow_first rows_two_students cfg_photo ''job1'' = Some out"
    and tr: "sched_trace out
             = [Launch task_first, Launch task_second, Settle task_second, Settle task_first]"
    and ret: "returned out = Inr [result_second, result_one_link]"
    by auto
  have ts: "settled (sched_trace out) = [task_second, task_first]"
    and ls: "launched (sched_trace out) = [task_first, task_second]"
    by (simp_all add: tr)
  note claim = progress_payload [OF run]
  note c1 = claim [THEN conjunct1, rule_format, of "Room ''other''"]
  note c2 = claim [THEN conjunct2, THEN conjunct1, rule_format, of AllClients]
  note c3 = claim [THEN conjunct2, THEN conjunct2, THEN conjunct1, rule_format, of AllClients]
  note c5 = claim [THEN conjunct2, THEN conjunct2, THEN conjunct2, THEN conjunct2,
                   THEN conjunct1, rule_format, of 0]
  have b: "0 \<le> to_double env_slow_first (to_double env_slow_first (real 1 / real 2) * 100)
         \<and> to_double env_slow_first (to_double env_slow_first (real 1 / real 2) * 100) \<le> 100"
    using c5 m f0 f1 f100 by (simp add: ts count_two_rows)
  have other:
    "event_payloads (Room ''other'') ''document-fetcher:progress'' (emissions out) = []"
    using c1 by simp
  have len:
    "length (event_payloads AllClients ''document-fetcher:progress'' (emissions out)) = 2"
    using c2 by (simp add: ts)
  have p0: "event_payloads AllClients ''document-fetcher:progress'' (emissions out) ! 0
            = ItemProgress ''job1'' 1 2 (Some 50) result_second ''2024-01-01T00:00:00.000Z''"
    using c3 [of 0]
    by (simp add: ts count_two_rows task_results_two_rows round_to_grid_fixed)
  have p1: "event_payloads AllClients ''document-fetcher:progress'' (emissions out) ! 1
            = ItemProgress ''job1'' 2 2 (Some 100) result_one_link ''2024-01-01T00:00:00.000Z''"
    using c3 [of 1]
    by (simp add: ts count_two_rows task_results_two_rows round_to_grid_fixed)
  from m f0 f1 f100 run ls ts ret len p0 p1 other b show ?thesis by blast
qed

theorem empty_batch_completes_witness:
  "ensureDir env_ok (DOWNLOAD_DIR env_ok) = None
   \<and> archive_error env_ok (path_join [DOWNLOAD_DIR env_ok, ''documents_'' @ ''job1'' @ ''.zip''])
       = None
   \<and> map_option returned (processExcelFile env_ok [] cfg_negative ''job1'') = Some (Inr [])
   \<and> map_option sched_trace (processExcelFile env_ok [] cfg_negative ''job1'') = Some []
   \<and> map_option archive (processExcelFile env_ok [] cfg_negative ''job1'')
       = Some (Some (path_join [DOWNLOAD_DIR env_ok, ''documents_'' @ ''job1'' @ ''.zip''], []))
   \<and> map_option (emit_count ''document-fetcher:complete'')
        (processDocumentsInBackground env_ok [] cfg_negative ''job1'') = Some 2
   \<and> map_option (emit_count ''document-fetcher:error'')
        (processDocumentsInBackground env_ok [] cfg_negative ''job1'') = Some 0"
proof -
  have dir: "ensureDir env_ok (DOWNLOAD_DIR env_ok) = None" by (simp add: env_ok_def)
  have zip: "archive_error env_ok
               (path_join [DOWNLOAD_DIR env_ok, ''documents_'' @ ''job1'' @ ''.zip'']) = None"
    by (simp add: env_ok_def)
  from empty_batch_completes [OF dir zip, of cfg_negative] dir zip
  show ?thesis by simp
qed





section \<open>Properties of \<open>createPassword\<close>\<close>

lemma length_concat_pick_char:
  "charset \<noteq> [] \<Longrightarrow> length (concat (map (\<lambda>i. pick_char charset (rnd i)) [0 ..< n])) = n"
  by (induction n) (simp_all add: pick_char_def)

lemma set_concat_pick_char:
  "set (concat (map (\<lambda>i. pick_char charset (rnd i)) [0 ..< n])) \<subseteq> set charset"
  by (induction n) (auto simp: pick_char_def)

lemma concat_pick_char_empty:
  "concat (map (\<lambda>i. pick_char [] (rnd i)) [0 ..< n]) = []"
  by (induction n) (simp_all add: pick_char_def)

text \<open>
  Claim C9 (as amended). For every configuration whose length the typed array and the
  random source accept, that is a length from 0 to 65536: when the selected character set
  is non-empty but the filters remove every character, \<open>createPassword\<close> returns the
  empty string and does not throw; when the filtered character set is non-empty, it
  returns a password of exactly \<open>config.length\<close> characters, each one a member of the
  filtered set.
\<close>

theorem createPassword_filtered_charset:
  assumes "0 \<le> pw_length config" and "pw_length config \<le> 65536"
  shows "(selected_charset config \<noteq> [] \<and> filtered_charset config = []
            \<longrightarrow> createPassword rnd config = Inr [])
       \<and> (filtered_charset config \<noteq> []
            \<longrightarrow> (\<exists>pw. createPassword rnd config = Inr pw
                   \<and> int (length pw) = pw_length config
                   \<and> set pw \<subseteq> set (filtered_charset config)))"
proof (intro conjI impI)
  assume "selected_charset config \<noteq> [] \<and> filtered_charset config = []"
  then show "createPassword rnd config = Inr []"
    using assms by (simp add: createPassword_def concat_pick_char_empty)
next
  let ?pw = "concat (map (\<lambda>i. pick_char (filtered_charset config) (rnd i))
                       [0 ..< nat (pw_length config)])"
  assume ne: "filtered_charset config \<noteq> []"
  then have sel: "selected_charset config \<noteq> []"
    by (auto simp: filtered_charset_def Let_def split: if_splits)
  have run: "createPassword rnd config = Inr ?pw"
    using assms sel by (simp add: createPassword_def)
  have len: "int (length ?pw) = pw_length config"
    using assms(1) length_concat_pick_char [OF ne, of rnd "nat (pw_length config)"] by simp
  have mem: "set ?pw \<subseteq> set (filtered_charset config)"
    by (rule set_concat_pick_char)
  from run len mem
  show "\<exists>pw. createPassword rnd config = Inr pw
          \<and> int (length pw) = pw_length config
          \<and> set pw \<subseteq> set (filtered_charset config)"
    by blast
qed

theorem createPassword_filtered_charset_witness:
  "selected_charset cfg_only_zero = ''0'' \<and> filtered_charset cfg_only_zero = []
   \<and> createPassword (\<lambda>i. 7) cfg_only_zero = Inr []
   \<and> filtered_charset cfg_digits = ''23456789''
   \<and> (\<exists>pw. createPassword (\<lambda>i. 7) cfg_digits = Inr pw \<and> int (length pw) = 8
          \<and> set pw \<subseteq> set ''23456789'')"
proof -
  have sel: "selected_charset cfg_only_zero = ''0''"
    by (simp add: selected_charset_def cfg_only_zero_def)
  have fil: "filtered_charset cfg_only_zero = []"
    by (simp add: filtered_charset_def selected_charset_def cfg_only_zero_def similar_chars_def)
  have fil2: "filtered_charset cfg_digits = ''23456789''"
    by (simp add: filtered_charset_def selected_charset_def cfg_digits_def similar_chars_def)
  have a: "createPassword (\<lambda>i. 7) cfg_only_zero = Inr []"
    using createPassword_filtered_charset [of cfg_only_zero "\<lambda>i. 7"] sel fil
    by (simp add: cfg_only_zero_def)
  have b: "\<exists>pw. createPassword (\<lambda>i. 7) cfg_digits = Inr pw \<and> int (length pw) = 8
             \<and> set pw \<subseteq> set ''23456789''"
    using createPassword_filtered_charset [of cfg_digits "\<lambda>i. 7"] fil2
    by (simp add: cfg_digits_def)
  from sel fil fil2 a b show ?thesis by blast
qed

end
